theory Spec2Isabelle
  imports Main
begin


section \<open>Shared types (src/types/index.ts)\<close>

text \<open>
  Clock readings in milliseconds and counts (attempts, limits, counters) are \<open>int\<close>.
  The numbers that the retry loop computes with (the delay, its multiplier and its cap)
  are \<open>Number\<close>, the doubles of JavaScript, defined below.  Values the kernel treats
  as opaque (\<open>unknown\<close>: inputs, outputs, payloads, metadata) have the type variable
  \<open>'v\<close>.  An optional field is an \<open>option\<close>.
\<close>

subsection \<open>JavaScript numbers\<close>

text \<open>
  A double is \<open>NaN\<close>, an infinity, or finite: \<open>Finite m e\<close> stands for \<open>m * 2^e\<close>, so
  that 0.5 is \<open>Finite 1 (- 1)\<close>.  The finite doubles are the values with
  \<open>\<bar>m\<bar> < 2^53\<close>, \<open>- 1074 \<le> e\<close> and \<open>\<bar>m\<bar> * 2^e < 2^1024\<close>; rounding returns them
  with \<open>m\<close> odd, or as \<open>Finite 0 0\<close>.  The two zeros are not told apart: they are equal
  under \<open>===\<close> and both falsy, and the code applies no operation that separates them.
\<close>

datatype Number = NaN | PosInf | NegInf | Finite int int

text \<open>The number of binary digits of a positive integer.\<close>

function bits :: "int \<Rightarrow> int" where
  "bits a = (if a \<le> 0 then 0 else 1 + bits (a div 2))"
  by pat_completeness auto
termination
  by (relation "measure nat") auto

declare bits.simps [simp del]

function normal :: "int \<Rightarrow> int \<Rightarrow> Number" where
  "normal m e =
     (if m = 0 then Finite 0 0
      else if even m then normal (m div 2) (e + 1)
      else Finite m e)"
  by pat_completeness auto
termination
  by (relation "measure (\<lambda>(m, e). nat \<bar>m\<bar>)") auto

declare normal.simps [simp del]

text \<open>
  The double nearest to \<open>m * 2^e\<close>, ties going to the even significand (IEEE 754
  binary64, round to nearest): 53 significant bits, the least exponent \<open>- 1074\<close> of the
  subnormal range, and an infinity from \<open>2^1024\<close> on.
\<close>

definition roundToDouble :: "int \<Rightarrow> int \<Rightarrow> Number" where
  "roundToDouble m e =
     (let a = \<bar>m\<bar>;
          E = max (e + bits a - 53) (- 1074);
          s = nat (E - e);
          q = a div 2 ^ s;
          r = a mod 2 ^ s;
          M = (if 2 * r > 2 ^ s \<or> (2 * r = 2 ^ s \<and> odd q) then q + 1 else q)
      in if bits M + max E e > 1024 then (if m < 0 then NegInf else PosInf)
         else normal (if m < 0 then - M else M) (max E e))"

text \<open>A whole number as a double, as a numeric literal of the code denotes it.\<close>

definition num :: "int \<Rightarrow> Number" where
  "num i = roundToDouble i 0"

definition negative :: "Number \<Rightarrow> bool" where
  "negative x = (case x of NegInf \<Rightarrow> True | Finite m e \<Rightarrow> m < 0 | _ \<Rightarrow> False)"

definition isZero :: "Number \<Rightarrow> bool" where
  "isZero x = (case x of Finite m e \<Rightarrow> m = 0 | _ \<Rightarrow> False)"

text \<open>The product \<open>x * y\<close> of two doubles.\<close>

definition jsTimes :: "Number \<Rightarrow> Number \<Rightarrow> Number" where
  "jsTimes x y =
     (case (x, y) of
        (Finite m e, Finite n f) \<Rightarrow> roundToDouble (m * n) (e + f)
      | (NaN, _) \<Rightarrow> NaN
      | (_, NaN) \<Rightarrow> NaN
      | _ \<Rightarrow> if isZero x \<or> isZero y then NaN
             else if negative x = negative y then PosInf else NegInf)"

text \<open>\<open>x <= y\<close>, which is false when either side is \<open>NaN\<close>.\<close>

definition jsLessEq :: "Number \<Rightarrow> Number \<Rightarrow> bool" where
  "jsLessEq x y =
     (case (x, y) of
        (NaN, _) \<Rightarrow> False
      | (_, NaN) \<Rightarrow> False
      | (NegInf, _) \<Rightarrow> True
      | (_, PosInf) \<Rightarrow> True
      | (Finite m e, Finite n f) \<Rightarrow>
          if e \<ge> f then m * 2 ^ nat (e - f) \<le> n else m \<le> n * 2 ^ nat (f - e)
      | _ \<Rightarrow> False)"

text \<open>\<open>Math.min(x, y)\<close>: \<open>NaN\<close> when either argument is, the smaller one otherwise.\<close>

definition Math_min :: "Number \<Rightarrow> Number \<Rightarrow> Number" where
  "Math_min x y = (if x = NaN \<or> y = NaN then NaN else if jsLessEq x y then x else y)"

text \<open>The numbers that are falsy: \<open>NaN\<close> and zero.\<close>

definition falsy :: "Number \<Rightarrow> bool" where
  "falsy x = (x = NaN \<or> isZero x)"

subsection \<open>The types of the kernel\<close>

type_synonym AgentId = string
type_synonym MessageId = string

datatype AgentStatus = IDLE | RUNNING | COMPLETED | FAILED | SUSPENDED

datatype MessagePriority = LOW | NORMAL | HIGH | CRITICAL

record RetryPolicy =
  maxAttempts :: int
  backoffMultiplier :: "Number option"
  initialDelay :: "Number option"
  maxDelay :: "Number option"

record 'v AgentConfig =
  config_id :: AgentId
  config_name :: string
  config_type :: string
  config_memory :: "(int option \<times> int option) option"
  config_timeout :: "int option"
  retryPolicy :: "RetryPolicy option"
  fallbackAgent :: "AgentId option"
  config_metadata :: "'v option"

record 'v AgentContext =
  agentId :: AgentId
  requestId :: string
  correlationId :: "string option"
  timestamp :: int
  metadata :: "'v option"

text \<open>
  \<open>AgentError\<close>: the optional \<open>details\<close> (never written by the kernel) and \<open>stack\<close>
  (diagnostic text produced by the runtime) are left out.
\<close>

record AgentError =
  code :: string
  message :: string

record AgentMetrics =
  executionTime :: int
  memoryUsed :: "int option"
  messagesProcessed :: "int option"
  retryCount :: "int option"

record 'v AgentResult =
  success :: bool
  data :: "'v option"
  error :: "AgentError option"
  metrics :: "AgentMetrics option"

text \<open>
  A thrown value: an \<open>Error\<close> object with its message, or any other value, of which the
  code only ever takes \<open>String(error)\<close>.
\<close>

datatype Thrown = JsError string | NonError string

section \<open>Agent (the Agent class in src/core/FallbackManager.ts, lines 253-400)\<close>

text \<open>
  The fields of the base class, and \<open>user\<close>: the state of the concrete subclass.
\<close>

record ('v, 'u) Agent =
  config :: "'v AgentConfig"
  status :: AgentStatus
  agent_context :: "'v AgentContext option"
  startTime :: "int option"
  user :: 'u

text \<open>
  What a concrete subclass supplies.  \<open>run\<close> is the abstract method: it sees the agent
  (\<open>this\<close>), the input and the clock, and settles with a returned value (\<open>Inr\<close>) or a
  thrown one (\<open>Inl\<close>), a new subclass state and the clock reading at which it settled.
  \<open>cleanup\<close> is the overridable hook, called on the agent (\<open>this\<close>): it returns
  (\<open>None\<close>) or throws (\<open>Some\<close>), and leaves a status, which it may have assigned, and
  a subclass state.  The hooks are taken to leave the configuration and the stored
  context alone.  \<open>collectMetrics\<close>, \<open>getMemoryUsage\<close> and \<open>formatError\<close> are those of
  the base class.
\<close>

record ('v, 'u) AgentClass =
  run :: "('v, 'u) Agent \<Rightarrow> 'v \<Rightarrow> int \<Rightarrow> (Thrown + 'v) \<times> 'u \<times> int"
  cleanup :: "('v, 'u) Agent \<Rightarrow> Thrown option \<times> AgentStatus \<times> 'u"

text \<open>The \<open>cleanup\<close> of the base class (lines 381-383), which does nothing.\<close>

definition baseCleanup :: "('v, 'u) Agent \<Rightarrow> Thrown option \<times> AgentStatus \<times> 'u" where
  "baseCleanup ag = (None, status ag, user ag)"

definition getId :: "('v, 'u) Agent \<Rightarrow> AgentId" where
  "getId ag = config_id (config ag)"

definition getStatus :: "('v, 'u) Agent \<Rightarrow> AgentStatus" where
  "getStatus ag = status ag"

definition getConfig :: "('v, 'u) Agent \<Rightarrow> 'v AgentConfig" where
  "getConfig ag = config ag"

text \<open>
  \<open>collectMetrics\<close>, at clock reading \<open>now\<close>; \<open>heap\<close> is what \<open>getMemoryUsage\<close> returns
  (\<open>process.memoryUsage().heapUsed\<close>, or 0 without a process object).  \<open>startTime\<close> is
  tested for truthiness, so a start time of 0 counts as absent.
\<close>

definition collectMetrics :: "('v, 'u) Agent \<Rightarrow> int \<Rightarrow> int \<Rightarrow> AgentMetrics" where
  "collectMetrics ag now heap =
     \<lparr>executionTime = (case startTime ag of
                          None \<Rightarrow> 0
                        | Some t \<Rightarrow> if t \<noteq> 0 then now - t else 0),
      memoryUsed = Some heap,
      messagesProcessed = None,
      retryCount = Some 0\<rparr>"

definition formatError :: "Thrown \<Rightarrow> AgentError" where
  "formatError e =
     (case e of
        JsError m \<Rightarrow> \<lparr>code = ''AGENT_ERROR'', message = m\<rparr>
      | NonError s \<Rightarrow> \<lparr>code = ''UNKNOWN_ERROR'', message = s\<rparr>)"

text \<open>The three assignments on entry to \<open>execute\<close> (lines 301-303).\<close>

definition Agent_enter ::
  "'v AgentContext \<Rightarrow> int \<Rightarrow> ('v, 'u) Agent \<Rightarrow> ('v, 'u) Agent" where
  "Agent_enter ctx now ag = ag\<lparr>agent_context := Some ctx, status := RUNNING, startTime := Some now\<rparr>"

text \<open>
  \<open>execute\<close>: the try / catch / finally of lines 305-324.  The result is built (and the
  metrics collected) before the \<open>finally\<close> block runs \<open>cleanup\<close>; when \<open>cleanup\<close>
  throws, \<open>execute\<close> throws that (\<open>Inl\<close>) instead of returning the result.
\<close>

definition Agent_execute ::
  "('v, 'u) AgentClass \<Rightarrow> 'v AgentContext \<Rightarrow> 'v \<Rightarrow> ('v, 'u) Agent \<Rightarrow> int \<Rightarrow> int
     \<Rightarrow> (Thrown + 'v AgentResult) \<times> ('v, 'u) Agent \<times> int" where
  "Agent_execute cls ctx input ag now heap =
     (let entered = Agent_enter ctx now ag in
      case run cls entered input now of
        (Inr d, u, settled) \<Rightarrow>
          (let completed = entered\<lparr>user := u, status := COMPLETED\<rparr>;
               res = \<lparr>success = True, data = Some d, error = None,
                      metrics = Some (collectMetrics completed settled heap)\<rparr>
           in case cleanup cls completed of
                (None, st, u') \<Rightarrow> (Inr res, completed\<lparr>status := st, user := u'\<rparr>, settled)
              | (Some thrown, st, u') \<Rightarrow>
                  (Inl thrown, completed\<lparr>status := st, user := u'\<rparr>, settled))
      | (Inl e, u, settled) \<Rightarrow>
          (let failed = entered\<lparr>user := u, status := FAILED\<rparr>;
               res = \<lparr>success = False, data = None, error = Some (formatError e),
                      metrics = Some (collectMetrics failed settled heap)\<rparr>
           in case cleanup cls failed of
                (None, st, u') \<Rightarrow> (Inr res, failed\<lparr>status := st, user := u'\<rparr>, settled)
              | (Some thrown, st, u') \<Rightarrow>
                  (Inl thrown, failed\<lparr>status := st, user := u'\<rparr>, settled)))"

definition suspend :: "('v, 'u) Agent \<Rightarrow> ('v, 'u) Agent" where
  "suspend ag = ag\<lparr>status := SUSPENDED\<rparr>"

definition resume :: "('v, 'u) Agent \<Rightarrow> ('v, 'u) Agent" where
  "resume ag = (if status ag = SUSPENDED then ag\<lparr>status := IDLE\<rparr> else ag)"

section \<open>CircuitBreaker (src/core/FallbackManager.ts, lines 7-81)\<close>

datatype CircuitState = CLOSED | OPEN | HALF_OPEN

record CircuitBreaker =
  state :: CircuitState
  failureCount :: int
  successCount :: int
  lastFailureTime :: "int option"
  threshold :: int
  timeout :: int
  halfOpenAttempts :: int

text \<open>The constructor; an argument left out takes its default.\<close>

definition CircuitBreaker_new :: "int option \<Rightarrow> int option \<Rightarrow> int option \<Rightarrow> CircuitBreaker" where
  "CircuitBreaker_new th tmo hoa =
     \<lparr>state = CLOSED, failureCount = 0, successCount = 0, lastFailureTime = None,
      threshold = (case th of None \<Rightarrow> 5 | Some n \<Rightarrow> n),
      timeout = (case tmo of None \<Rightarrow> 60000 | Some n \<Rightarrow> n),
      halfOpenAttempts = (case hoa of None \<Rightarrow> 3 | Some n \<Rightarrow> n)\<rparr>"

definition onSuccess :: "CircuitBreaker \<Rightarrow> CircuitBreaker" where
  "onSuccess cb =
     (let cb1 = cb\<lparr>failureCount := 0\<rparr> in
      if state cb1 = HALF_OPEN then
        (let cb2 = cb1\<lparr>successCount := successCount cb1 + 1\<rparr> in
         if successCount cb2 \<ge> halfOpenAttempts cb2 then cb2\<lparr>state := CLOSED\<rparr> else cb2)
      else cb1)"

text \<open>\<open>onFailure\<close>, with \<open>now\<close> the reading of \<open>Date.now()\<close>.\<close>

definition onFailure :: "int \<Rightarrow> CircuitBreaker \<Rightarrow> CircuitBreaker" where
  "onFailure now cb =
     (let cb1 = cb\<lparr>failureCount := failureCount cb + 1, lastFailureTime := Some now\<rparr> in
      if failureCount cb1 \<ge> threshold cb1 then cb1\<lparr>state := OPEN\<rparr> else cb1)"

text \<open>
  \<open>shouldAttemptReset\<close>: \<open>lastFailureTime\<close> is tested for truthiness, so an absent one and
  the reading 0 both answer false.
\<close>

definition shouldAttemptReset :: "int \<Rightarrow> CircuitBreaker \<Rightarrow> bool" where
  "shouldAttemptReset now cb =
     (case lastFailureTime cb of
        None \<Rightarrow> False
      | Some t \<Rightarrow> t \<noteq> 0 \<and> now - t \<ge> timeout cb)"

text \<open>
  \<open>execute\<close> gates the call \<open>fn\<close>, which acts on a state \<open>'s\<close> whose clock \<open>clk\<close> reads;
  \<open>fn\<close> settles with a value (\<open>Inr\<close>) or a thrown one (\<open>Inl\<close>).  The error thrown by an open
  breaker is \<open>new Error('Circuit breaker is OPEN')\<close>.
\<close>

definition CircuitBreaker_execute ::
  "('s \<Rightarrow> int) \<Rightarrow> ('s \<Rightarrow> (Thrown + 'a) \<times> 's) \<Rightarrow> CircuitBreaker \<Rightarrow> 's
     \<Rightarrow> (Thrown + 'a) \<times> CircuitBreaker \<times> 's" where
  "CircuitBreaker_execute clk fn cb s =
     (if state cb = OPEN \<and> \<not> shouldAttemptReset (clk s) cb then
        (Inl (JsError ''Circuit breaker is OPEN''), cb, s)
      else
        (let cb1 = (if state cb = OPEN then cb\<lparr>state := HALF_OPEN, successCount := 0\<rparr> else cb) in
         case fn s of
           (Inr r, s') \<Rightarrow> (Inr r, onSuccess cb1, s')
         | (Inl e, s') \<Rightarrow> (Inl e, onFailure (clk s') cb1, s')))"

definition CircuitBreaker_getState :: "CircuitBreaker \<Rightarrow> CircuitState" where
  "CircuitBreaker_getState cb = state cb"

section \<open>The retry loop (FallbackManager.executeWithRetry, lines 155-199)\<close>

text \<open>
  \<open>x || dflt\<close> on an optional count (\<open>maxAttempts\<close>, \<open>maxFallbackAttempts\<close>), which is a
  whole number: an absent value and 0 are both falsy.
\<close>

definition orDefault :: "int option \<Rightarrow> int \<Rightarrow> int" where
  "orDefault x dflt = (case x of None \<Rightarrow> dflt | Some n \<Rightarrow> if n \<noteq> 0 then n else dflt)"

text \<open>The same on an optional double: absent, zero and \<open>NaN\<close> are falsy.\<close>

definition numberOrDefault :: "Number option \<Rightarrow> Number \<Rightarrow> Number" where
  "numberOrDefault x dflt = (case x of None \<Rightarrow> dflt | Some n \<Rightarrow> if falsy n then dflt else n)"

text \<open>The result returned on success: the agent's result with \<open>retryCount\<close> set (lines 174-183).\<close>

definition withRetryCount :: "int \<Rightarrow> 'v AgentResult \<Rightarrow> 'v AgentResult" where
  "withRetryCount attempt result =
     result\<lparr>metrics :=
       Some (case metrics result of
               Some mt \<Rightarrow> mt\<lparr>retryCount := Some attempt\<rparr>
             | None \<Rightarrow> \<lparr>executionTime = 0, memoryUsed = None, messagesProcessed = None,
                        retryCount = Some attempt\<rparr>)\<rparr>"

text \<open>
  The error remembered for a result with \<open>success = false\<close> (line 186) and for a thrown
  value (line 188).
\<close>

definition resultError :: "'v AgentResult \<Rightarrow> Thrown" where
  "resultError result =
     JsError (case error result of
                None \<Rightarrow> ''Execution failed''
              | Some e \<Rightarrow> if message e \<noteq> [] then message e else ''Execution failed'')"

definition caughtError :: "Thrown \<Rightarrow> Thrown" where
  "caughtError e = (case e of JsError m \<Rightarrow> JsError m | NonError s \<Rightarrow> JsError s)"

text \<open>
  The \<open>for\<close> loop, from \<open>attempt\<close> on.  \<open>call\<close> is \<open>agent.execute(context, input)\<close> and
  \<open>sleep\<close> is \<open>this.sleep\<close>, both acting on the state \<open>'s\<close>.
\<close>

function retryLoop ::
  "('s \<Rightarrow> (Thrown + 'v AgentResult) \<times> 's) \<Rightarrow> (Number \<Rightarrow> 's \<Rightarrow> 's) \<Rightarrow> int \<Rightarrow> Number
     \<Rightarrow> Number \<Rightarrow> int \<Rightarrow> Number \<Rightarrow> Thrown option \<Rightarrow> 's
     \<Rightarrow> (Thrown + 'v AgentResult) \<times> 's" where
  "retryLoop call sleep maxAtt mult cap attempt delay lastError s =
     (if attempt < maxAtt then
        (case call s of
           (Inr result, s1) \<Rightarrow>
             if success result then (Inr (withRetryCount attempt result), s1)
             else if attempt < maxAtt - 1
               then retryLoop call sleep maxAtt mult cap (attempt + 1) (jsTimes delay mult)
                      (Some (resultError result)) (sleep (Math_min delay cap) s1)
               else retryLoop call sleep maxAtt mult cap (attempt + 1) delay
                      (Some (resultError result)) s1
         | (Inl e, s1) \<Rightarrow>
             if attempt < maxAtt - 1
               then retryLoop call sleep maxAtt mult cap (attempt + 1) (jsTimes delay mult)
                      (Some (caughtError e)) (sleep (Math_min delay cap) s1)
               else retryLoop call sleep maxAtt mult cap (attempt + 1) delay
                      (Some (caughtError e)) s1)
      else
        (Inl (case lastError of
                Some e \<Rightarrow> e
              | None \<Rightarrow> JsError ''Execution failed after retries''), s))"
  by pat_completeness auto
termination
  by (relation "measure (\<lambda>(call, sleep, maxAtt, mult, cap, attempt, delay, lastError, s).
                           nat (maxAtt - attempt))") auto

declare retryLoop.simps [simp del]

definition executeWithRetry ::
  "('s \<Rightarrow> (Thrown + 'v AgentResult) \<times> 's) \<Rightarrow> (Number \<Rightarrow> 's \<Rightarrow> 's) \<Rightarrow> RetryPolicy option
     \<Rightarrow> 's \<Rightarrow> (Thrown + 'v AgentResult) \<times> 's" where
  "executeWithRetry call sleep policy s =
     (let maxAtt = orDefault (map_option maxAttempts policy) 1;
          initDelay = numberOrDefault (Option.bind policy initialDelay) (num 1000);
          mult = numberOrDefault (Option.bind policy backoffMultiplier) (num 2);
          cap = numberOrDefault (Option.bind policy maxDelay) (num 30000)
      in retryLoop call sleep maxAtt mult cap 0 initDelay None s)"

text \<open>
  Reading the loop.  An attempt succeeded when it returned a result with
  \<open>success = true\<close>; of any other attempt the loop remembers an error (lines 186 and
  188).  \<open>loopDelay d m i\<close> is the value of the variable \<open>delay\<close> after \<open>i\<close> executions of
  \<open>delay *= backoffMultiplier\<close> (line 194), each product rounded as a double, and
  \<open>retryWait d m cap i\<close> is the argument \<open>Math.min(delay, maxDelay)\<close> that \<open>sleep\<close> is then
  given (line 193).
\<close>

definition succeeded :: "(Thrown + 'v AgentResult) \<Rightarrow> bool" where
  "succeeded out = (case out of Inr result \<Rightarrow> success result | Inl e \<Rightarrow> False)"

definition failureOf :: "(Thrown + 'v AgentResult) \<Rightarrow> Thrown" where
  "failureOf out = (case out of Inr result \<Rightarrow> resultError result | Inl e \<Rightarrow> caughtError e)"

primrec loopDelay :: "Number \<Rightarrow> Number \<Rightarrow> nat \<Rightarrow> Number" where
  "loopDelay d m 0 = d"
| "loopDelay d m (Suc i) = jsTimes (loopDelay d m i) m"

definition retryWait :: "Number \<Rightarrow> Number \<Rightarrow> Number \<Rightarrow> nat \<Rightarrow> Number" where
  "retryWait d m cap i = Math_min (loopDelay d m i) cap"

section \<open>The environment\<close>

text \<open>
  What the code reads and writes outside its own objects.  \<open>clock\<close> is the reading of
  \<open>Date.now()\<close>; \<open>sleeps\<close> lists the arguments of the calls of \<open>sleep\<close> so far;
  \<open>heapUsed\<close> is what \<open>getMemoryUsage\<close> reads; \<open>randoms k\<close> is the text that the \<open>k\<close>-th
  evaluation of \<open>Math.random().toString(36).substr(2, 9)\<close> gives, and \<open>randomsUsed\<close>
  counts those evaluations; \<open>objs\<close> holds the agent objects by reference, each with the
  methods of its class.  An agent is registered by reference, so the orchestrator and
  the fallback manager share the object.
\<close>

record ('v, 'u) World =
  clock :: int
  sleeps :: "Number list"
  heapUsed :: int
  randoms :: "nat \<Rightarrow> string"
  randomsUsed :: nat
  objs :: "nat \<Rightarrow> ('v, 'u) Agent \<times> ('v, 'u) AgentClass"

text \<open>
  \<open>sleep(ms)\<close> (lines 249-251) is \<open>setTimeout(resolve, ms)\<close>.  The timer is taken to
  fire on time, after the delay that Node.js gives it: the whole milliseconds of \<open>ms\<close>
  when \<open>1 <= ms <= 2^31 - 1\<close>, and 1 millisecond for every other value.
\<close>

definition wholeMs :: "Number \<Rightarrow> int" where
  "wholeMs x =
     (case x of
        Finite m e \<Rightarrow> if e \<ge> 0 then m * 2 ^ nat e else m div 2 ^ nat (- e)
      | _ \<Rightarrow> 0)"

definition timerDelay :: "Number \<Rightarrow> int" where
  "timerDelay ms =
     (if jsLessEq (num 1) ms \<and> jsLessEq ms (num 2147483647) then wholeMs ms else 1)"

definition sleep :: "Number \<Rightarrow> ('v, 'u) World \<Rightarrow> ('v, 'u) World" where
  "sleep ms w = w\<lparr>clock := clock w + timerDelay ms, sleeps := sleeps w @ [ms]\<rparr>"

text \<open>
  \<open>agent.execute(context, input)\<close> on the object at \<open>ref\<close>: it returns a result (\<open>Inr\<close>)
  or throws (\<open>Inl\<close>).
\<close>

definition agentExecute ::
  "nat \<Rightarrow> 'v AgentContext \<Rightarrow> 'v \<Rightarrow> ('v, 'u) World
     \<Rightarrow> (Thrown + 'v AgentResult) \<times> ('v, 'u) World" where
  "agentExecute ref ctx input w =
     (case objs w ref of
        (ag, cls) \<Rightarrow>
          (case Agent_execute cls ctx input ag (clock w) (heapUsed w) of
             (res, ag', settled) \<Rightarrow>
               (res, w\<lparr>clock := settled, objs := (objs w)(ref := (ag', cls))\<rparr>)))"

text \<open>Decimal text of a number, as a template literal renders it.\<close>

fun showNat :: "nat \<Rightarrow> string" where
  "showNat n =
     (if n < 10 then [''0123456789'' ! n]
      else showNat (n div 10) @ [''0123456789'' ! (n mod 10)])"

definition showInt :: "int \<Rightarrow> string" where
  "showInt i = (if i < 0 then ''-'' @ showNat (nat (- i)) else showNat (nat i))"

section \<open>FallbackManager (src/core/FallbackManager.ts, lines 86-252)\<close>

datatype FallbackStrategy = CircuitBreakerStrategy | RetryStrategy | DelegateStrategy

record FallbackConfig =
  enabled :: bool
  fallbackAgentId :: "AgentId option"
  maxFallbackAttempts :: "int option"
  fallbackStrategy :: "FallbackStrategy option"

record FallbackManager =
  circuitBreakers :: "AgentId \<rightharpoonup> CircuitBreaker"
  fm_agents :: "AgentId \<rightharpoonup> nat"

definition FallbackManager_new :: FallbackManager where
  "FallbackManager_new = \<lparr>circuitBreakers = Map.empty, fm_agents = Map.empty\<rparr>"

definition FallbackManager_registerAgent ::
  "nat \<Rightarrow> FallbackManager \<Rightarrow> ('v, 'u) World \<Rightarrow> FallbackManager" where
  "FallbackManager_registerAgent ref fm w =
     (let aid = getId (fst (objs w ref)) in
      fm\<lparr>fm_agents := (fm_agents fm)(aid \<mapsto> ref),
         circuitBreakers := (circuitBreakers fm)(aid \<mapsto> CircuitBreaker_new None None None)\<rparr>)"

definition failure :: "string \<Rightarrow> string \<Rightarrow> 'v AgentResult" where
  "failure c m = \<lparr>success = False, data = None, error = Some \<lparr>code = c, message = m\<rparr>,
                  metrics = None\<rparr>"

text \<open>
  The error code of what a call returned; a call that threw returned no result, and so
  no code.
\<close>

definition returnedCode :: "Thrown + 'v AgentResult \<Rightarrow> string option" where
  "returnedCode out = (case out of Inr result \<Rightarrow> map_option code (error result) | Inl e \<Rightarrow> None)"

text \<open>
  The \<open>for\<close> loop of \<open>executeFallback\<close> (lines 222-236), from \<open>attempt\<close> on.  The call
  of \<open>execute\<close> is not inside a \<open>try\<close>: what it throws leaves the loop.
\<close>

function executeFallbackLoop ::
  "nat \<Rightarrow> 'v AgentContext \<Rightarrow> 'v \<Rightarrow> int \<Rightarrow> int \<Rightarrow> ('v, 'u) World
     \<Rightarrow> (Thrown + 'v AgentResult) \<times> ('v, 'u) World" where
  "executeFallbackLoop ref ctx input maxAtt attempt w =
     (if attempt < maxAtt then
        (case agentExecute ref ctx input w of
           (Inr result, w1) \<Rightarrow>
             if success result then (Inr result, w1)
             else executeFallbackLoop ref ctx input maxAtt (attempt + 1) w1
         | (Inl e, w1) \<Rightarrow> (Inl e, w1))
      else (Inr (failure ''FALLBACK_FAILED'' ''Fallback agent execution failed''), w))"
  by pat_completeness auto
termination
  by (relation "measure (\<lambda>(ref, ctx, input, maxAtt, attempt, w). nat (maxAtt - attempt))") auto

declare executeFallbackLoop.simps [simp del]

definition executeFallback ::
  "FallbackManager \<Rightarrow> AgentId \<Rightarrow> 'v AgentContext \<Rightarrow> 'v \<Rightarrow> int \<Rightarrow> ('v, 'u) World
     \<Rightarrow> (Thrown + 'v AgentResult) \<times> ('v, 'u) World" where
  "executeFallback fm fbId ctx input maxAtt w =
     (case fm_agents fm fbId of
        None \<Rightarrow>
          (Inr (failure ''FALLBACK_AGENT_NOT_FOUND''
                  (''Fallback agent '' @ fbId @ '' not found'')), w)
      | Some ref \<Rightarrow> executeFallbackLoop ref ctx input maxAtt 0 w)"

text \<open>
  \<open>executeWithRetry\<close> on the agent at \<open>ref\<close>: the retry loop around \<open>agent.execute\<close>,
  sleeping in the environment.
\<close>

definition agentExecuteWithRetry ::
  "nat \<Rightarrow> 'v AgentContext \<Rightarrow> 'v \<Rightarrow> RetryPolicy option \<Rightarrow> ('v, 'u) World
     \<Rightarrow> (Thrown + 'v AgentResult) \<times> ('v, 'u) World" where
  "agentExecuteWithRetry ref ctx input policy w =
     executeWithRetry (agentExecute ref ctx input) sleep policy w"

text \<open>
  \<open>executeWithFallback\<close> (lines 101-150).  A fallback id is tested for truthiness, so
  the empty string counts as absent; \<open>maxFallbackAttempts || 1\<close>.  The fallback runs
  inside the \<open>catch\<close> block, so what it throws is thrown by \<open>executeWithFallback\<close>.
\<close>

definition executeWithFallback ::
  "FallbackManager \<Rightarrow> AgentId \<Rightarrow> 'v AgentContext \<Rightarrow> 'v \<Rightarrow> FallbackConfig \<Rightarrow> ('v, 'u) World
     \<Rightarrow> (Thrown + 'v AgentResult) \<times> FallbackManager \<times> ('v, 'u) World" where
  "executeWithFallback fm aid ctx input fc w =
     (case fm_agents fm aid of
        None \<Rightarrow> (Inr (failure ''AGENT_NOT_FOUND'' (''Agent '' @ aid @ '' not found'')), fm, w)
      | Some ref \<Rightarrow>
          (let policy = retryPolicy (getConfig (fst (objs w ref)));
               guarded =
                 (case circuitBreakers fm aid of
                    Some cb \<Rightarrow>
                      (case CircuitBreaker_execute clock
                              (agentExecuteWithRetry ref ctx input policy) cb w of
                         (out, cb', w1) \<Rightarrow>
                           (out, fm\<lparr>circuitBreakers := (circuitBreakers fm)(aid \<mapsto> cb')\<rparr>, w1))
                  | None \<Rightarrow>
                      (case agentExecuteWithRetry ref ctx input policy w of
                         (out, w1) \<Rightarrow> (out, fm, w1)))
           in case guarded of
                (Inr result, fm1, w1) \<Rightarrow> (Inr result, fm1, w1)
              | (Inl e, fm1, w1) \<Rightarrow>
                  (case fallbackAgentId fc of
                     Some fb \<Rightarrow>
                       if enabled fc \<and> fb \<noteq> [] then
                         (case executeFallback fm1 fb ctx input
                                 (orDefault (maxFallbackAttempts fc) 1) w1 of
                            (out, w2) \<Rightarrow> (out, fm1, w2))
                       else (Inr (failure ''EXECUTION_FAILED''
                                    (case e of JsError m \<Rightarrow> m | NonError t \<Rightarrow> t)), fm1, w1)
                   | None \<Rightarrow>
                       (Inr (failure ''EXECUTION_FAILED''
                               (case e of JsError m \<Rightarrow> m | NonError t \<Rightarrow> t)), fm1, w1))))"

definition FallbackManager_getCircuitState :: "FallbackManager \<Rightarrow> AgentId \<Rightarrow> CircuitState option" where
  "FallbackManager_getCircuitState fm aid = map_option CircuitBreaker_getState (circuitBreakers fm aid)"

section \<open>The communication bus (src/communication/A2ACommunicationBus.ts)\<close>

record 'v AgentMessage =
  msg_id :: MessageId
  msg_from :: AgentId
  msg_to :: AgentId
  msg_type :: string
  payload :: 'v
  priority :: MessagePriority
  msg_timestamp :: int
  msg_correlationId :: "string option"
  replyTo :: "AgentId option"
  msg_metadata :: "'v option"

text \<open>
  A message handler is a closure.  The orchestrator installs, for the agent \<open>a\<close>, the
  closure that forwards to \<open>handleAgentMessage(a, message)\<close>; any other handler is named
  by a number.
\<close>

datatype MessageHandler = AgentMessageHandler AgentId | UserHandler nat

text \<open>
  The \<open>MessageTransport\<close> interface, over the state \<open>'t\<close> of the transport object and the
  state \<open>'w\<close> that handlers and I/O act on.  \<open>send\<close> resolves (\<open>None\<close>) or rejects with
  a thrown value.
\<close>

record ('v, 't, 'w) MessageTransport =
  send :: "'v AgentMessage \<Rightarrow> 't \<Rightarrow> 'w \<Rightarrow> Thrown option \<times> 't \<times> 'w"
  receive :: "AgentId \<Rightarrow> 't \<Rightarrow> 'w \<Rightarrow> (Thrown + 'v AgentMessage list) \<times> 't \<times> 'w"
  transport_subscribe :: "AgentId \<Rightarrow> MessageHandler \<Rightarrow> 't \<Rightarrow> 't"
  transport_unsubscribe :: "AgentId \<Rightarrow> 't \<Rightarrow> 't"

record ('v, 't) A2ACommunicationBus =
  transport :: 't
  messageHandlers :: "AgentId \<rightharpoonup> MessageHandler list"
  messageQueue :: "AgentId \<rightharpoonup> 'v AgentMessage list"

definition A2ACommunicationBus_new :: "'t \<Rightarrow> ('v, 't) A2ACommunicationBus" where
  "A2ACommunicationBus_new t = \<lparr>transport = t, messageHandlers = Map.empty, messageQueue = Map.empty\<rparr>"

record 'v SendOptions =
  opt_priority :: "MessagePriority option"
  opt_correlationId :: "string option"
  opt_replyTo :: "AgentId option"
  opt_metadata :: "'v option"

text \<open>The options of \<open>broadcast\<close>, which have no \<open>replyTo\<close>.\<close>

record 'v BroadcastOptions =
  bopt_priority :: "MessagePriority option"
  bopt_correlationId :: "string option"
  bopt_metadata :: "'v option"

definition generateMessageId :: "('v, 'u) World \<Rightarrow> MessageId \<times> ('v, 'u) World" where
  "generateMessageId w =
     (''msg-'' @ showInt (clock w) @ ''-'' @ randoms w (randomsUsed w),
      w\<lparr>randomsUsed := randomsUsed w + 1\<rparr>)"

definition sendMessage ::
  "('v, 't, ('v, 'u) World) MessageTransport \<Rightarrow> AgentId \<Rightarrow> AgentId \<Rightarrow> string \<Rightarrow> 'v
     \<Rightarrow> 'v SendOptions option \<Rightarrow> ('v, 't) A2ACommunicationBus \<Rightarrow> ('v, 'u) World
     \<Rightarrow> (Thrown + MessageId) \<times> ('v, 't) A2ACommunicationBus \<times> ('v, 'u) World" where
  "sendMessage tr from to ty pl options bus w =
     (case generateMessageId w of
        (mid, w1) \<Rightarrow>
          (let msg = \<lparr>msg_id = mid, msg_from = from, msg_to = to, msg_type = ty, payload = pl,
                      priority = (case Option.bind options opt_priority of
                                    None \<Rightarrow> NORMAL | Some p \<Rightarrow> p),
                      msg_timestamp = clock w1,
                      msg_correlationId = Option.bind options opt_correlationId,
                      replyTo = Option.bind options opt_replyTo,
                      msg_metadata = Option.bind options opt_metadata\<rparr>
           in case send tr msg (transport bus) w1 of
                (None, t', w2) \<Rightarrow> (Inr (msg_id msg), bus\<lparr>transport := t'\<rparr>, w2)
              | (Some e, t', w2) \<Rightarrow> (Inl e, bus\<lparr>transport := t'\<rparr>, w2)))"

text \<open>
  \<open>broadcast\<close> (lines 65-84): the loop over \<open>recipients\<close>, with \<open>messageIds\<close> the ids
  pushed so far.  A rejected \<open>sendMessage\<close> rejects the broadcast with the same thrown
  value; the local array \<open>messageIds\<close> is then dropped.
\<close>

fun broadcastLoop ::
  "('v, 't, ('v, 'u) World) MessageTransport \<Rightarrow> AgentId \<Rightarrow> AgentId list \<Rightarrow> string \<Rightarrow> 'v
     \<Rightarrow> 'v SendOptions option \<Rightarrow> MessageId list \<Rightarrow> ('v, 't) A2ACommunicationBus
     \<Rightarrow> ('v, 'u) World
     \<Rightarrow> (Thrown + MessageId list) \<times> ('v, 't) A2ACommunicationBus \<times> ('v, 'u) World" where
  "broadcastLoop tr from [] ty pl options messageIds bus w = (Inr messageIds, bus, w)"
| "broadcastLoop tr from (recipient # rest) ty pl options messageIds bus w =
     (case sendMessage tr from recipient ty pl options bus w of
        (Inr messageId, bus1, w1) \<Rightarrow>
          broadcastLoop tr from rest ty pl options (messageIds @ [messageId]) bus1 w1
      | (Inl e, bus1, w1) \<Rightarrow> (Inl e, bus1, w1))"

definition broadcast ::
  "('v, 't, ('v, 'u) World) MessageTransport \<Rightarrow> AgentId \<Rightarrow> AgentId list \<Rightarrow> string \<Rightarrow> 'v
     \<Rightarrow> 'v BroadcastOptions option \<Rightarrow> ('v, 't) A2ACommunicationBus \<Rightarrow> ('v, 'u) World
     \<Rightarrow> (Thrown + MessageId list) \<times> ('v, 't) A2ACommunicationBus \<times> ('v, 'u) World" where
  "broadcast tr from recipients ty pl options bus w =
     broadcastLoop tr from recipients ty pl
       (map_option (\<lambda>b. \<lparr>opt_priority = bopt_priority b, opt_correlationId = bopt_correlationId b,
                          opt_replyTo = None, opt_metadata = bopt_metadata b\<rparr>) options)
       [] bus w"

definition subscribe ::
  "('v, 't, 'w) MessageTransport \<Rightarrow> AgentId \<Rightarrow> MessageHandler \<Rightarrow> ('v, 't) A2ACommunicationBus
     \<Rightarrow> ('v, 't) A2ACommunicationBus" where
  "subscribe tr aid handler bus =
     bus\<lparr>messageHandlers :=
           (messageHandlers bus)(aid \<mapsto>
              (case messageHandlers bus aid of None \<Rightarrow> [] | Some hs \<Rightarrow> hs) @ [handler]),
         transport := transport_subscribe tr aid handler (transport bus)\<rparr>"

definition unsubscribe ::
  "('v, 't, 'w) MessageTransport \<Rightarrow> AgentId \<Rightarrow> ('v, 't) A2ACommunicationBus
     \<Rightarrow> ('v, 't) A2ACommunicationBus" where
  "unsubscribe tr aid bus =
     bus\<lparr>messageHandlers := (messageHandlers bus)(aid := None),
         transport := transport_unsubscribe tr aid (transport bus)\<rparr>"

subsection \<open>InMemoryMessageTransport (lines 140-171)\<close>

record 'v InMemoryMessageTransport =
  messages :: "AgentId \<rightharpoonup> 'v AgentMessage list"
  handlers :: "AgentId \<rightharpoonup> MessageHandler list"

definition InMemoryMessageTransport_new :: "'v InMemoryMessageTransport" where
  "InMemoryMessageTransport_new = \<lparr>messages = Map.empty, handlers = Map.empty\<rparr>"

text \<open>
  The loop that notifies the handlers; \<open>invoke h m\<close> is what calling the closure \<open>h\<close> on
  the message \<open>m\<close> does.  A handler that throws rejects \<open>send\<close> and ends the loop.
\<close>

fun notifyHandlers ::
  "(MessageHandler \<Rightarrow> 'v AgentMessage \<Rightarrow> 'w \<Rightarrow> Thrown option \<times> 'w) \<Rightarrow> MessageHandler list
     \<Rightarrow> 'v AgentMessage \<Rightarrow> 'w \<Rightarrow> Thrown option \<times> 'w" where
  "notifyHandlers invoke [] m w = (None, w)"
| "notifyHandlers invoke (h # hs) m w =
     (case invoke h m w of
        (Some e, w1) \<Rightarrow> (Some e, w1)
      | (None, w1) \<Rightarrow> notifyHandlers invoke hs m w1)"

definition InMemory_send ::
  "(MessageHandler \<Rightarrow> 'v AgentMessage \<Rightarrow> 'w \<Rightarrow> Thrown option \<times> 'w) \<Rightarrow> 'v AgentMessage
     \<Rightarrow> 'v InMemoryMessageTransport \<Rightarrow> 'w \<Rightarrow> Thrown option \<times> 'v InMemoryMessageTransport \<times> 'w" where
  "InMemory_send invoke m t w =
     (let queue = (case messages t (msg_to m) of None \<Rightarrow> [] | Some q \<Rightarrow> q) @ [m];
          t1 = t\<lparr>messages := (messages t)(msg_to m \<mapsto> queue)\<rparr>;
          hs = (case handlers t1 (msg_to m) of None \<Rightarrow> [] | Some l \<Rightarrow> l)
      in case notifyHandlers invoke hs m w of (r, w1) \<Rightarrow> (r, t1, w1))"

definition InMemory_receive ::
  "AgentId \<Rightarrow> 'v InMemoryMessageTransport \<Rightarrow> 'w
     \<Rightarrow> (Thrown + 'v AgentMessage list) \<times> 'v InMemoryMessageTransport \<times> 'w" where
  "InMemory_receive aid t w =
     (Inr (case messages t aid of None \<Rightarrow> [] | Some q \<Rightarrow> q),
      t\<lparr>messages := (messages t)(aid \<mapsto> [])\<rparr>, w)"

definition InMemory_subscribe ::
  "AgentId \<Rightarrow> MessageHandler \<Rightarrow> 'v InMemoryMessageTransport \<Rightarrow> 'v InMemoryMessageTransport" where
  "InMemory_subscribe aid handler t =
     t\<lparr>handlers := (handlers t)(aid \<mapsto>
          (case handlers t aid of None \<Rightarrow> [] | Some hs \<Rightarrow> hs) @ [handler])\<rparr>"

definition InMemory_unsubscribe ::
  "AgentId \<Rightarrow> 'v InMemoryMessageTransport \<Rightarrow> 'v InMemoryMessageTransport" where
  "InMemory_unsubscribe aid t = t\<lparr>handlers := (handlers t)(aid := None)\<rparr>"

definition InMemoryTransport ::
  "(MessageHandler \<Rightarrow> 'v AgentMessage \<Rightarrow> 'w \<Rightarrow> Thrown option \<times> 'w)
     \<Rightarrow> ('v, 'v InMemoryMessageTransport, 'w) MessageTransport" where
  "InMemoryTransport invoke =
     \<lparr>send = InMemory_send invoke, receive = InMemory_receive,
      transport_subscribe = InMemory_subscribe, transport_unsubscribe = InMemory_unsubscribe\<rparr>"

section \<open>AgentOrchestrator (src/orchestration/AgentOrchestrator.ts)\<close>

record OrchestratorConfig =
  fallbackEnabled :: "bool option"
  maxConcurrentAgents :: "int option"
  defaultTimeout :: "int option"

text \<open>
  \<open>runningAgents\<close> is a \<open>Set\<close>: its members in insertion order, without repetition.
  The bus object is kept inside the orchestrator's record.
\<close>

record ('v, 't) AgentOrchestrator =
  agents :: "AgentId \<rightharpoonup> nat"
  fallbackManager :: FallbackManager
  communicationBus :: "('v, 't) A2ACommunicationBus"
  orch_config :: OrchestratorConfig
  runningAgents :: "AgentId list"

definition Set_add :: "'a \<Rightarrow> 'a list \<Rightarrow> 'a list" where
  "Set_add x xs = (if x \<in> set xs then xs else xs @ [x])"

definition Set_delete :: "'a \<Rightarrow> 'a list \<Rightarrow> 'a list" where
  "Set_delete x xs = removeAll x xs"

text \<open>
  The constructor (lines 33-45): the defaults, overridden by every field that the given
  configuration has.
\<close>

definition AgentOrchestrator_new ::
  "('v, 't) A2ACommunicationBus \<Rightarrow> OrchestratorConfig \<Rightarrow> ('v, 't) AgentOrchestrator" where
  "AgentOrchestrator_new bus cfg =
     \<lparr>agents = Map.empty,
      fallbackManager = FallbackManager_new,
      communicationBus = bus,
      orch_config =
        \<lparr>fallbackEnabled = (case fallbackEnabled cfg of None \<Rightarrow> Some True | Some b \<Rightarrow> Some b),
         maxConcurrentAgents = (case maxConcurrentAgents cfg of None \<Rightarrow> Some 10 | Some n \<Rightarrow> Some n),
         defaultTimeout = (case defaultTimeout cfg of None \<Rightarrow> Some 30000 | Some n \<Rightarrow> Some n)\<rparr>,
      runningAgents = []\<rparr>"

text \<open>
  \<open>registerAgent\<close> (lines 50-64), for the agent object at \<open>ref\<close>: it throws (\<open>Some\<close>) before
  it changes anything, or returns (\<open>None\<close>).
\<close>

definition registerAgent ::
  "('v, 't, 'w) MessageTransport \<Rightarrow> nat \<Rightarrow> ('v, 't) AgentOrchestrator \<Rightarrow> ('v, 'u) World
     \<Rightarrow> Thrown option \<times> ('v, 't) AgentOrchestrator" where
  "registerAgent tr ref orch w =
     (let aid = getId (fst (objs w ref)) in
      if agents orch aid \<noteq> None then
        (Some (JsError (''Agent '' @ aid @ '' is already registered'')), orch)
      else
        (None,
         orch\<lparr>agents := (agents orch)(aid \<mapsto> ref),
              fallbackManager := FallbackManager_registerAgent ref (fallbackManager orch) w,
              communicationBus :=
                subscribe tr aid (AgentMessageHandler aid) (communicationBus orch)\<rparr>))"

definition unregisterAgent ::
  "('v, 't, 'w) MessageTransport \<Rightarrow> AgentId \<Rightarrow> ('v, 't) AgentOrchestrator
     \<Rightarrow> ('v, 't) AgentOrchestrator" where
  "unregisterAgent tr aid orch =
     orch\<lparr>agents := (agents orch)(aid := None),
          communicationBus := unsubscribe tr aid (communicationBus orch),
          runningAgents := Set_delete aid (runningAgents orch)\<rparr>"

text \<open>
  \<open>Partial<AgentContext>\<close>: every field may be missing, and a field that is there
  holds a value.
\<close>

record 'v PartialAgentContext =
  part_agentId :: "AgentId option"
  part_requestId :: "string option"
  part_correlationId :: "string option"
  part_timestamp :: "int option"
  part_metadata :: "'v option"

definition generateRequestId :: "('v, 'u) World \<Rightarrow> string \<times> ('v, 'u) World" where
  "generateRequestId w =
     (''req-'' @ showInt (clock w) @ ''-'' @ randoms w (randomsUsed w),
      w\<lparr>randomsUsed := randomsUsed w + 1\<rparr>)"

text \<open>
  The object literal of lines 112-117: the three generated fields, then the spread of the
  caller's partial context, which overrides every field it has.
\<close>

definition buildAgentContext ::
  "AgentId \<Rightarrow> 'v PartialAgentContext option \<Rightarrow> ('v, 'u) World
     \<Rightarrow> 'v AgentContext \<times> ('v, 'u) World" where
  "buildAgentContext aid partial w =
     (case generateRequestId w of
        (rid, w1) \<Rightarrow>
          (\<lparr>agentId = (case Option.bind partial part_agentId of None \<Rightarrow> aid | Some a \<Rightarrow> a),
            requestId = (case Option.bind partial part_requestId of None \<Rightarrow> rid | Some r \<Rightarrow> r),
            correlationId = Option.bind partial part_correlationId,
            timestamp = (case Option.bind partial part_timestamp of
                           None \<Rightarrow> clock w1 | Some t \<Rightarrow> t),
            metadata = Option.bind partial part_metadata\<rparr>, w1))"

text \<open>
  The admission of \<open>executeAgent\<close> (lines 83-109), which runs without interruption:
  the lookup, the check of the limit (skipped when \<open>maxConcurrentAgents\<close> is falsy:
  absent or 0) and the insertion into \<open>runningAgents\<close>.  \<open>Inl\<close> is the result returned
  at once; \<open>Inr\<close> carries the agent found.
\<close>

definition admit ::
  "AgentId \<Rightarrow> ('v, 't) AgentOrchestrator
     \<Rightarrow> 'v AgentResult + nat \<times> ('v, 't) AgentOrchestrator" where
  "admit aid orch =
     (case agents orch aid of
        None \<Rightarrow> Inl (failure ''AGENT_NOT_FOUND'' (''Agent '' @ aid @ '' not found''))
      | Some ref \<Rightarrow>
          if (case maxConcurrentAgents (orch_config orch) of
                None \<Rightarrow> False
              | Some limit \<Rightarrow> limit \<noteq> 0 \<and> int (length (runningAgents orch)) \<ge> limit)
          then Inl (failure ''MAX_CONCURRENT_LIMIT'' ''Maximum concurrent agents limit reached'')
          else Inr (ref, orch\<lparr>runningAgents := Set_add aid (runningAgents orch)\<rparr>))"

text \<open>
  \<open>executeAgent\<close> (lines 78-135), run to completion: admission, the \<open>try\<close> block, and
  the \<open>finally\<close> block that takes the id out of \<open>runningAgents\<close>, whether the \<open>try\<close>
  block returned (\<open>Inr\<close>) or threw (\<open>Inl\<close>).
\<close>

definition executeAgent ::
  "AgentId \<Rightarrow> 'v \<Rightarrow> 'v PartialAgentContext option \<Rightarrow> ('v, 't) AgentOrchestrator
     \<Rightarrow> ('v, 'u) World
     \<Rightarrow> (Thrown + 'v AgentResult) \<times> ('v, 't) AgentOrchestrator \<times> ('v, 'u) World" where
  "executeAgent aid input partial orch w =
     (case admit aid orch of
        Inl rejected \<Rightarrow> (Inr rejected, orch, w)
      | Inr (ref, orch1) \<Rightarrow>
          (case buildAgentContext aid partial w of
             (agentContext, w1) \<Rightarrow>
               (let fallbackConfig =
                      \<lparr>enabled = (case fallbackEnabled (orch_config orch1) of
                                    None \<Rightarrow> False | Some b \<Rightarrow> b),
                       fallbackAgentId = fallbackAgent (getConfig (fst (objs w1 ref))),
                       maxFallbackAttempts = Some 2,
                       fallbackStrategy = Some CircuitBreakerStrategy\<rparr>
                in case executeWithFallback (fallbackManager orch1) aid agentContext input
                          fallbackConfig w1 of
                     (out, fm', w2) \<Rightarrow>
                       (out,
                        orch1\<lparr>fallbackManager := fm',
                               runningAgents := Set_delete aid (runningAgents orch1)\<rparr>,
                        w2))))"

definition getAgentStatus ::
  "('v, 't) AgentOrchestrator \<Rightarrow> ('v, 'u) World \<Rightarrow> AgentId \<Rightarrow> AgentStatus option" where
  "getAgentStatus orch w aid = map_option (\<lambda>ref. getStatus (fst (objs w ref))) (agents orch aid)"

definition getCircuitState :: "('v, 't) AgentOrchestrator \<Rightarrow> AgentId \<Rightarrow> CircuitState option" where
  "getCircuitState orch aid = FallbackManager_getCircuitState (fallbackManager orch) aid"

definition getRunningAgentCount :: "('v, 't) AgentOrchestrator \<Rightarrow> nat" where
  "getRunningAgentCount orch = length (runningAgents orch)"

section \<open>Test doubles\<close>

text \<open>Values for the opaque inputs and outputs of the examples.\<close>

datatype Value = Num int | Str string | Obj "(string \<times> Value) list"

text \<open>The constructor of \<open>Agent\<close> (lines 268-274), with the state of the subclass.\<close>

definition Agent_new :: "'v AgentConfig \<Rightarrow> 'u \<Rightarrow> ('v, 'u) Agent" where
  "Agent_new cfg u = \<lparr>config = cfg, status = IDLE, agent_context = None, startTime = None, user = u\<rparr>"

text \<open>The configuration used by the tests, with a retry policy and a fallback agent.\<close>

definition testConfig :: "AgentId \<Rightarrow> RetryPolicy option \<Rightarrow> AgentId option \<Rightarrow> Value AgentConfig" where
  "testConfig aid policy fb =
     \<lparr>config_id = aid, config_name = ''Test Agent'', config_type = ''test'', config_memory = None,
      config_timeout = None, retryPolicy = policy, fallbackAgent = fb, config_metadata = None\<rparr>"

text \<open>
  A subclass whose state counts the invocations of \<open>run\<close>: the \<open>k\<close>-th invocation settles
  as \<open>script k\<close> says, one millisecond after it began.  \<open>cleanup\<close> is not overridden.
\<close>

definition scripted :: "(nat \<Rightarrow> Value \<Rightarrow> Thrown + Value) \<Rightarrow> (Value, nat) AgentClass" where
  "scripted script =
     \<lparr>run = (\<lambda>ag input now. (script (user ag) input, user ag + 1, now + 1)),
      cleanup = baseCleanup\<rparr>"

text \<open>\<open>MockAgent\<close> of the tests: \<open>run(input) = { processed: input }\<close>.\<close>

definition MockAgent :: "(Value, nat) AgentClass" where
  "MockAgent = scripted (\<lambda>k input. Inr (Obj [(''processed'', input)]))"

text \<open>\<open>FailingAgent\<close> of the tests: \<open>run\<close> throws \<open>new Error('Test error')\<close>.\<close>

definition FailingAgent :: "(Value, nat) AgentClass" where
  "FailingAgent = scripted (\<lambda>k input. Inl (JsError ''Test error''))"

text \<open>
  Three subclasses that override \<open>cleanup\<close>; their \<open>run\<close> returns on the first invocation
  and throws on every later one.  The first \<open>cleanup\<close> marks the state by adding 100, the
  second throws \<open>new Error('cleanup failed')\<close>, the third assigns \<open>this.status = IDLE\<close>.
\<close>

definition firstRunOnly ::
  "(Value, nat) Agent \<Rightarrow> Value \<Rightarrow> int \<Rightarrow> (Thrown + Value) \<times> nat \<times> int" where
  "firstRunOnly ag input now =
     (if user ag = 0 then Inr (Obj [(''processed'', input)]) else Inl (JsError ''Test error''),
      user ag + 1, now + 1)"

definition CleaningAgent :: "(Value, nat) AgentClass" where
  "CleaningAgent =
     \<lparr>run = firstRunOnly, cleanup = (\<lambda>ag. (None, status ag, user ag + 100))\<rparr>"

definition ThrowingCleanupAgent :: "(Value, nat) AgentClass" where
  "ThrowingCleanupAgent =
     \<lparr>run = firstRunOnly,
      cleanup = (\<lambda>ag. (Some (JsError ''cleanup failed''), status ag, user ag))\<rparr>"

definition ResettingAgent :: "(Value, nat) AgentClass" where
  "ResettingAgent =
     \<lparr>run = firstRunOnly, cleanup = (\<lambda>ag. (None, IDLE, user ag))\<rparr>"

definition testContext :: "Value AgentContext" where
  "testContext = \<lparr>agentId = ''test-agent'', requestId = ''req-001'', correlationId = None,
                  timestamp = 1000, metadata = None\<rparr>"

text \<open>Gated calls on a state that is the clock alone: one that throws, one that returns.\<close>

definition raising :: "int \<Rightarrow> (Thrown + unit) \<times> int" where
  "raising t = (Inl (JsError ''boom''), t)"

definition returning :: "int \<Rightarrow> (Thrown + unit) \<times> int" where
  "returning t = (Inr (), t)"

text \<open>The breaker after a gated call \<open>fn\<close> made at the clock reading \<open>t\<close>.\<close>

definition gateAt :: "(int \<Rightarrow> (Thrown + unit) \<times> int) \<Rightarrow> int \<Rightarrow> CircuitBreaker \<Rightarrow> CircuitBreaker" where
  "gateAt fn t cb = fst (snd (CircuitBreaker_execute (\<lambda>s. s) fn cb t))"

text \<open>
  A breaker with the default parameters after five failed calls at the reading 1000 and
  then, 60 seconds later, one successful call.
\<close>

definition breakerAfterProbeSuccess :: CircuitBreaker where
  "breakerAfterProbeSuccess =
     gateAt returning 61000
       (gateAt raising 1000 (gateAt raising 1000 (gateAt raising 1000 (gateAt raising 1000
         (gateAt raising 1000 (CircuitBreaker_new None None None))))))"

text \<open>
  A gated call that throws, on a state that pairs the clock with the number of times the
  call has been entered; it settles at the reading \<open>settled\<close>.
\<close>

definition failingCall :: "int \<Rightarrow> int \<times> nat \<Rightarrow> (Thrown + unit) \<times> (int \<times> nat)" where
  "failingCall settled s = (Inl (JsError ''boom''), (settled, snd s + 1))"

text \<open>
  A breaker put through a series of gated calls that all throw, each given by the clock
  reading at which it is made and the one at which the call settles.  The number counts
  the failures that the breaker has seen, which are the calls it let through.
\<close>

fun failuresSeen :: "CircuitBreaker \<Rightarrow> (int \<times> int) list \<Rightarrow> nat \<Rightarrow> CircuitBreaker \<times> nat" where
  "failuresSeen cb [] k = (cb, k)"
| "failuresSeen cb ((made, settled) # rest) k =
     (case CircuitBreaker_execute fst (failingCall settled) cb (made, k) of
        (out, cb', s') \<Rightarrow> failuresSeen cb' rest (snd s'))"

text \<open>The agent objects of an example, by reference; any other reference holds a mock agent.\<close>

definition objsOf ::
  "((Value, nat) Agent \<times> (Value, nat) AgentClass) list
     \<Rightarrow> nat \<Rightarrow> (Value, nat) Agent \<times> (Value, nat) AgentClass" where
  "objsOf os ref =
     (if ref < length os then os ! ref
      else (Agent_new (testConfig ''unused'' None None) 0, MockAgent))"

definition world0 ::
  "((Value, nat) Agent \<times> (Value, nat) AgentClass) list \<Rightarrow> (Value, nat) World" where
  "world0 os = \<lparr>clock = 1000, sleeps = [], heapUsed = 0, randoms = (\<lambda>k. ''r'' @ showNat k),
                randomsUsed = 0, objs = objsOf os\<rparr>"

definition noFallback :: FallbackConfig where
  "noFallback = \<lparr>enabled = False, fallbackAgentId = None, maxFallbackAttempts = None,
                  fallbackStrategy = None\<rparr>"




text \<open>The retry policy of scenario S3.\<close>

definition policyS3 :: RetryPolicy where
  "policyS3 = \<lparr>maxAttempts = 3, backoffMultiplier = Some (num 2), initialDelay = Some (num 10),
               maxDelay = Some (num 1000)\<rparr>"

text \<open>
  A policy of two attempts with the given \<open>initialDelay\<close>; an agent \<open>a\<close> whose \<open>run\<close>
  always throws, configured with that policy and registered with a fallback manager;
  and one call of \<open>executeWithFallback\<close> for it, without a fallback.
\<close>

definition policyWithDelay :: "Number \<Rightarrow> RetryPolicy" where
  "policyWithDelay d = \<lparr>maxAttempts = 2, backoffMultiplier = Some (num 2), initialDelay = Some d,
                         maxDelay = Some (num 30000)\<rparr>"

definition retryingWorld :: "Number \<Rightarrow> (Value, nat) World" where
  "retryingWorld d =
     world0 [(Agent_new (testConfig ''a'' (Some (policyWithDelay d)) None) 0, FailingAgent)]"

definition failingRetry ::
  "Number \<Rightarrow> (Thrown + Value AgentResult) \<times> FallbackManager \<times> (Value, nat) World" where
  "failingRetry d =
     executeWithFallback (FallbackManager_registerAgent 0 FallbackManager_new (retryingWorld d))
       ''a'' testContext (Str ''x'') noFallback (retryingWorld d)"

text \<open>
  A transport that records, around any transport, every message handed to \<open>send\<close> with
  what \<open>send\<close> answered.
\<close>

definition recording ::
  "('v, 't, 'w) MessageTransport
     \<Rightarrow> ('v, 't \<times> ('v AgentMessage \<times> Thrown option) list, 'w) MessageTransport" where
  "recording tr =
     \<lparr>send = (\<lambda>msg tl w. case send tr msg (fst tl) w of
                              (r, t', w') \<Rightarrow> (r, (t', snd tl @ [(msg, r)]), w')),
      receive = (\<lambda>aid tl w. case receive tr aid (fst tl) w of
                                (r, t', w') \<Rightarrow> (r, (t', snd tl), w')),
      transport_subscribe = (\<lambda>aid h tl. (transport_subscribe tr aid h (fst tl), snd tl)),
      transport_unsubscribe = (\<lambda>aid tl. (transport_unsubscribe tr aid (fst tl), snd tl))\<rparr>"

text \<open>
  What calling a handler does in the examples: the handler numbered 0 throws, every other
  handler returns.
\<close>

definition testInvoke ::
  "MessageHandler \<Rightarrow> Value AgentMessage \<Rightarrow> (Value, nat) World
     \<Rightarrow> Thrown option \<times> (Value, nat) World" where
  "testInvoke h m w =
     (case h of
        UserHandler k \<Rightarrow> if k = 0 then (Some (JsError ''handler failed''), w) else (None, w)
      | AgentMessageHandler aid \<Rightarrow> (None, w))"

definition testTransport ::
  "(Value, Value InMemoryMessageTransport, (Value, nat) World) MessageTransport" where
  "testTransport = InMemoryTransport testInvoke"

text \<open>A bus on the in-memory transport, where the agent \<open>b\<close> has subscribed the handler 0.\<close>

definition busWithFailingHandler :: "(Value, Value InMemoryMessageTransport) A2ACommunicationBus" where
  "busWithFailingHandler =
     subscribe testTransport ''b'' (UserHandler 0)
       (A2ACommunicationBus_new InMemoryMessageTransport_new)"

text \<open>The same bus on the recording transport.\<close>

definition recordingBus ::
  "(Value, Value InMemoryMessageTransport \<times> (Value AgentMessage \<times> Thrown option) list)
     A2ACommunicationBus" where
  "recordingBus =
     subscribe (recording testTransport) ''b'' (UserHandler 0)
       (A2ACommunicationBus_new (InMemoryMessageTransport_new, []))"

text \<open>
  The agent objects of the orchestrator examples: 0 and 1 are two mock agents with the
  same id \<open>agent-1\<close>; 2 is \<open>p\<close>, which always fails and names \<open>f\<close> as its fallback; 3 is
  the mock agent \<open>f\<close>.
\<close>

definition testWorld :: "(Value, nat) World" where
  "testWorld =
     world0 [(Agent_new (testConfig ''agent-1'' None None) 0, MockAgent),
             (Agent_new (testConfig ''agent-1'' None None) 0, MockAgent),
             (Agent_new (testConfig ''p'' None (Some ''f'')) 0, FailingAgent),
             (Agent_new (testConfig ''f'' None None) 0, MockAgent)]"

definition newOrchestrator ::
  "int option \<Rightarrow> (Value, Value InMemoryMessageTransport) AgentOrchestrator" where
  "newOrchestrator limit =
     AgentOrchestrator_new (A2ACommunicationBus_new InMemoryMessageTransport_new)
       \<lparr>fallbackEnabled = None, maxConcurrentAgents = limit, defaultTimeout = None\<rparr>"

text \<open>Registering the objects at the given references, one after the other.\<close>

fun registerAll ::
  "nat list \<Rightarrow> (Value, Value InMemoryMessageTransport) AgentOrchestrator
     \<Rightarrow> (Value, Value InMemoryMessageTransport) AgentOrchestrator" where
  "registerAll [] orch = orch"
| "registerAll (ref # refs) orch = registerAll refs (snd (registerAgent testTransport ref orch testWorld))"

text \<open>
  Admissions made one after the other while none of the executions has finished: the
  orchestrator after them, or the result of the first one that was turned away.
\<close>

fun admitAll ::
  "AgentId list \<Rightarrow> ('v, 't) AgentOrchestrator \<Rightarrow> 'v AgentResult + ('v, 't) AgentOrchestrator" where
  "admitAll [] orch = Inr orch"
| "admitAll (aid # aids) orch =
     (case admit aid orch of
        Inl rejected \<Rightarrow> Inl rejected
      | Inr (ref, orch1) \<Rightarrow> admitAll aids orch1)"

text \<open>A partial context in which the caller gives every generated field itself.\<close>

definition forgedContext :: "Value PartialAgentContext" where
  "forgedContext = \<lparr>part_agentId = Some ''intruder'', part_requestId = Some ''forged'',
                    part_correlationId = None, part_timestamp = Some 7, part_metadata = None\<rparr>"

text \<open>A partial context in which the caller gives the correlation id and the metadata only.\<close>

definition callerContext :: "Value PartialAgentContext" where
  "callerContext = \<lparr>part_agentId = None, part_requestId = None,
                    part_correlationId = Some ''corr-123'', part_timestamp = None,
                    part_metadata = Some (Str ''m'')\<rparr>"

text \<open>
  The agent \<open>b\<close> of scenario S3: it fails its first two invocations and succeeds from the
  third on, under the retry policy of the scenario.
\<close>

definition FlakyAgent :: "(Value, nat) AgentClass" where
  "FlakyAgent =
     scripted (\<lambda>k input. if k < 2 then Inl (JsError ''transient'')
                          else Inr (Obj [(''processed'', input)]))"

definition flakyWorld :: "(Value, nat) World" where
  "flakyWorld = world0 [(Agent_new (testConfig ''b'' (Some policyS3) None) 0, FlakyAgent)]"

section \<open>Properties\<close>

subsection \<open>Scenarios of the specification\<close>

text \<open>
  The model run on the end-to-end scenarios: S1 (a registered mock agent is executed and
  ends \<open>COMPLETED\<close>), S3 (two failures, then success: \<open>retryCount = 2\<close> after waits of
  10 and 20 ms and three invocations), S4 (a breaker with threshold 3 and a timeout of
  100 ms lets three failing calls through and refuses the fourth; 100 ms after the last
  failure it lets one more through) and S5 (the fallback agent answers for a primary
  that fails).
\<close>

lemma scenario_S1:
  "fst (executeAgent ''agent-1'' (Str ''x'') None (registerAll [0] (newOrchestrator None)) testWorld) =
     Inr \<lparr>success = True, data = Some (Obj [(''processed'', Str ''x'')]), error = None,
          metrics = Some \<lparr>executionTime = 1, memoryUsed = Some 0, messagesProcessed = None,
                          retryCount = Some 0\<rparr>\<rparr> \<and>
   getAgentStatus (registerAll [0] (newOrchestrator None)) testWorld ''agent-1'' = Some IDLE \<and>
   getAgentStatus (registerAll [0] (newOrchestrator None))
     (snd (snd (executeAgent ''agent-1'' (Str ''x'') None (registerAll [0] (newOrchestrator None))
                  testWorld))) ''agent-1'' = Some COMPLETED \<and>
   runningAgents (fst (snd (executeAgent ''agent-1'' (Str ''x'') None
                              (registerAll [0] (newOrchestrator None)) testWorld))) = []"
  by code_simp

lemma scenario_S3:
  "fst (agentExecuteWithRetry 0 testContext (Str ''x'') (Some policyS3) flakyWorld) =
     Inr \<lparr>success = True, data = Some (Obj [(''processed'', Str ''x'')]), error = None,
          metrics = Some \<lparr>executionTime = 1, memoryUsed = Some 0, messagesProcessed = None,
                          retryCount = Some 2\<rparr>\<rparr> \<and>
   sleeps (snd (agentExecuteWithRetry 0 testContext (Str ''x'') (Some policyS3) flakyWorld)) =
     [num 10, num 20] \<and>
   user (fst (objs (snd (agentExecuteWithRetry 0 testContext (Str ''x'') (Some policyS3) flakyWorld))
                0)) = 3"
  by code_simp

lemma scenario_S4:
  "failuresSeen (CircuitBreaker_new (Some 3) (Some 100) None)
     [(1000, 1001), (1002, 1003), (1004, 1005), (1006, 1007)] 0 =
     (\<lparr>state = OPEN, failureCount = 3, successCount = 0, lastFailureTime = Some 1005,
       threshold = 3, timeout = 100, halfOpenAttempts = 3\<rparr>, 3) \<and>
   failuresSeen (CircuitBreaker_new (Some 3) (Some 100) None)
     [(1000, 1001), (1002, 1003), (1004, 1005), (1006, 1007), (1105, 1106)] 0 =
     (\<lparr>state = OPEN, failureCount = 4, successCount = 0, lastFailureTime = Some 1106,
       threshold = 3, timeout = 100, halfOpenAttempts = 3\<rparr>, 4)"
  by code_simp

lemma scenario_S5:
  "fst (executeAgent ''p'' (Str ''x'') None (registerAll [2, 3] (newOrchestrator None)) testWorld) =
     Inr \<lparr>success = True, data = Some (Obj [(''processed'', Str ''x'')]), error = None,
          metrics = Some \<lparr>executionTime = 1, memoryUsed = Some 0, messagesProcessed = None,
                          retryCount = Some 0\<rparr>\<rparr> \<and>
   user (fst (objs (snd (snd (executeAgent ''p'' (Str ''x'') None
                               (registerAll [2, 3] (newOrchestrator None)) testWorld))) 2)) = 1 \<and>
   user (fst (objs (snd (snd (executeAgent ''p'' (Str ''x'') None
                               (registerAll [2, 3] (newOrchestrator None)) testWorld))) 3)) = 1"
  by code_simp

subsection \<open>Agent lifecycle\<close>

text \<open>
  C7, as the code has it.  For every agent and every invocation of \<open>execute\<close>, whatever
  \<open>run\<close> and \<open>cleanup\<close> the subclass has: the status is \<open>RUNNING\<close> when \<open>run\<close> is entered.
  If \<open>run\<close> returns \<open>v\<close>, the status is set to \<open>COMPLETED\<close>; if \<open>run\<close> throws \<open>e\<close>, it is
  set to \<open>FAILED\<close>.  On both paths \<open>cleanup\<close> is then called on the agent in that status.
  If \<open>cleanup\<close> returns, \<open>execute\<close> returns the result: \<open>success = true\<close>, \<open>data = v\<close> and
  the metrics, or \<open>success = false\<close>, the formatted error and the metrics.  If \<open>cleanup\<close>
  throws, \<open>execute\<close> throws what \<open>cleanup\<close> threw and returns no result.  The status and
  the subclass state after \<open>execute\<close> are those that \<open>cleanup\<close> leaves.  For the
  \<open>cleanup\<close> of the base class, which does nothing, \<open>execute\<close> therefore returns the
  result and the status is \<open>COMPLETED\<close> or \<open>FAILED\<close>.
\<close>

theorem Agent_execute_lifecycle:
  "status (Agent_enter ctx now ag) = RUNNING \<and>
   (\<forall>v u t thrown st u'.
      run cls (Agent_enter ctx now ag) input now = (Inr v, u, t) \<and>
      cleanup cls ((Agent_enter ctx now ag)\<lparr>user := u, status := COMPLETED\<rparr>) = (thrown, st, u') \<longrightarrow>
        fst (Agent_execute cls ctx input ag now heap) =
          (case thrown of
             None \<Rightarrow> Inr \<lparr>success = True, data = Some v, error = None,
                          metrics = Some (collectMetrics (Agent_enter ctx now ag) t heap)\<rparr>
           | Some x \<Rightarrow> Inl x) \<and>
        status (fst (snd (Agent_execute cls ctx input ag now heap))) = st \<and>
        user (fst (snd (Agent_execute cls ctx input ag now heap))) = u' \<and>
        snd (snd (Agent_execute cls ctx input ag now heap)) = t) \<and>
   (\<forall>e u t thrown st u'.
      run cls (Agent_enter ctx now ag) input now = (Inl e, u, t) \<and>
      cleanup cls ((Agent_enter ctx now ag)\<lparr>user := u, status := FAILED\<rparr>) = (thrown, st, u') \<longrightarrow>
        fst (Agent_execute cls ctx input ag now heap) =
          (case thrown of
             None \<Rightarrow> Inr \<lparr>success = False, data = None, error = Some (formatError e),
                          metrics = Some (collectMetrics (Agent_enter ctx now ag) t heap)\<rparr>
           | Some x \<Rightarrow> Inl x) \<and>
        status (fst (snd (Agent_execute cls ctx input ag now heap))) = st \<and>
        user (fst (snd (Agent_execute cls ctx input ag now heap))) = u' \<and>
        snd (snd (Agent_execute cls ctx input ag now heap)) = t) \<and>
   (cleanup cls = baseCleanup \<longrightarrow>
      (\<forall>v u t. run cls (Agent_enter ctx now ag) input now = (Inr v, u, t) \<longrightarrow>
         fst (Agent_execute cls ctx input ag now heap) =
           Inr \<lparr>success = True, data = Some v, error = None,
                metrics = Some (collectMetrics (Agent_enter ctx now ag) t heap)\<rparr> \<and>
         status (fst (snd (Agent_execute cls ctx input ag now heap))) = COMPLETED) \<and>
      (\<forall>e u t. run cls (Agent_enter ctx now ag) input now = (Inl e, u, t) \<longrightarrow>
         fst (Agent_execute cls ctx input ag now heap) =
           Inr \<lparr>success = False, data = None, error = Some (formatError e),
                metrics = Some (collectMetrics (Agent_enter ctx now ag) t heap)\<rparr> \<and>
         status (fst (snd (Agent_execute cls ctx input ag now heap))) = FAILED))"
proof (intro conjI allI impI)
  show "status (Agent_enter ctx now ag) = RUNNING" by (simp add: Agent_enter_def)
next
  fix v u t thrown st u'
  assume "run cls (Agent_enter ctx now ag) input now = (Inr v, u, t) \<and>
          cleanup cls ((Agent_enter ctx now ag)\<lparr>user := u, status := COMPLETED\<rparr>) = (thrown, st, u')"
  then show "fst (Agent_execute cls ctx input ag now heap) =
          (case thrown of
             None \<Rightarrow> Inr \<lparr>success = True, data = Some v, error = None,
                          metrics = Some (collectMetrics (Agent_enter ctx now ag) t heap)\<rparr>
           | Some x \<Rightarrow> Inl x)"
    and "status (fst (snd (Agent_execute cls ctx input ag now heap))) = st"
    and "user (fst (snd (Agent_execute cls ctx input ag now heap))) = u'"
    and "snd (snd (Agent_execute cls ctx input ag now heap)) = t"
    by (cases thrown; simp add: Agent_execute_def Let_def collectMetrics_def)+
next
  fix e u t thrown st u'
  assume "run cls (Agent_enter ctx now ag) input now = (Inl e, u, t) \<and>
          cleanup cls ((Agent_enter ctx now ag)\<lparr>user := u, status := FAILED\<rparr>) = (thrown, st, u')"
  then show "fst (Agent_execute cls ctx input ag now heap) =
          (case thrown of
             None \<Rightarrow> Inr \<lparr>success = False, data = None, error = Some (formatError e),
                          metrics = Some (collectMetrics (Agent_enter ctx now ag) t heap)\<rparr>
           | Some x \<Rightarrow> Inl x)"
    and "status (fst (snd (Agent_execute cls ctx input ag now heap))) = st"
    and "user (fst (snd (Agent_execute cls ctx input ag now heap))) = u'"
    and "snd (snd (Agent_execute cls ctx input ag now heap)) = t"
    by (cases thrown; simp add: Agent_execute_def Let_def collectMetrics_def)+
next
  fix v u t
  assume "cleanup cls = baseCleanup" and "run cls (Agent_enter ctx now ag) input now = (Inr v, u, t)"
  then show "fst (Agent_execute cls ctx input ag now heap) =
           Inr \<lparr>success = True, data = Some v, error = None,
                metrics = Some (collectMetrics (Agent_enter ctx now ag) t heap)\<rparr>"
    and "status (fst (snd (Agent_execute cls ctx input ag now heap))) = COMPLETED"
    by (simp_all add: Agent_execute_def Let_def collectMetrics_def baseCleanup_def)
next
  fix e u t
  assume "cleanup cls = baseCleanup" and "run cls (Agent_enter ctx now ag) input now = (Inl e, u, t)"
  then show "fst (Agent_execute cls ctx input ag now heap) =
           Inr \<lparr>success = False, data = None, error = Some (formatError e),
                metrics = Some (collectMetrics (Agent_enter ctx now ag) t heap)\<rparr>"
    and "status (fst (snd (Agent_execute cls ctx input ag now heap))) = FAILED"
    by (simp_all add: Agent_execute_def Let_def collectMetrics_def baseCleanup_def)
qed

theorem Agent_execute_lifecycle_witness:
  "status (Agent_enter testContext 5000 (Agent_new (testConfig ''test-agent'' None None) (0::nat))) =
     RUNNING \<and>
   fst (Agent_execute CleaningAgent testContext (Str ''x'')
          (Agent_new (testConfig ''test-agent'' None None) 0) 5000 0) =
     Inr \<lparr>success = True, data = Some (Obj [(''processed'', Str ''x'')]), error = None,
          metrics = Some \<lparr>executionTime = 1, memoryUsed = Some 0, messagesProcessed = None,
                          retryCount = Some 0\<rparr>\<rparr> \<and>
   status (fst (snd (Agent_execute CleaningAgent testContext (Str ''x'')
                       (Agent_new (testConfig ''test-agent'' None None) 0) 5000 0))) = COMPLETED \<and>
   user (fst (snd (Agent_execute CleaningAgent testContext (Str ''x'')
                     (Agent_new (testConfig ''test-agent'' None None) 0) 5000 0))) = 101 \<and>
   fst (Agent_execute ThrowingCleanupAgent testContext (Str ''x'')
          (Agent_new (testConfig ''test-agent'' None None) 1) 5000 0) =
     Inl (JsError ''cleanup failed'') \<and>
   status (fst (snd (Agent_execute ThrowingCleanupAgent testContext (Str ''x'')
                       (Agent_new (testConfig ''test-agent'' None None) 1) 5000 0))) = FAILED \<and>
   fst (Agent_execute FailingAgent testContext (Str ''x'')
          (Agent_new (testConfig ''test-agent'' None None) 0) 5000 0) =
     Inr \<lparr>success = False, data = None,
          error = Some \<lparr>code = ''AGENT_ERROR'', message = ''Test error''\<rparr>,
          metrics = Some \<lparr>executionTime = 1, memoryUsed = Some 0, messagesProcessed = None,
                          retryCount = Some 0\<rparr>\<rparr> \<and>
   status (fst (snd (Agent_execute FailingAgent testContext (Str ''x'')
                       (Agent_new (testConfig ''test-agent'' None None) 0) 5000 0))) = FAILED"
proof -
  let ?a0 = "Agent_new (testConfig ''test-agent'' None None) (0::nat)"
  let ?a1 = "Agent_new (testConfig ''test-agent'' None None) (1::nat)"
  let ?e0 = "Agent_enter testContext 5000 ?a0"
  let ?e1 = "Agent_enter testContext 5000 ?a1"
  have mt: "collectMetrics ?e0 5001 0 =
              \<lparr>executionTime = 1, memoryUsed = Some 0, messagesProcessed = None, retryCount = Some 0\<rparr>"
           "collectMetrics ?e1 5001 0 =
              \<lparr>executionTime = 1, memoryUsed = Some 0, messagesProcessed = None, retryCount = Some 0\<rparr>"
    by (simp_all add: collectMetrics_def Agent_enter_def)
  have f: "formatError (JsError ''Test error'') = \<lparr>code = ''AGENT_ERROR'', message = ''Test error''\<rparr>"
    by (simp add: formatError_def)
  have r0: "run CleaningAgent ?e0 (Str ''x'') 5000 = (Inr (Obj [(''processed'', Str ''x'')]), 1, 5001)"
    by (simp add: CleaningAgent_def firstRunOnly_def Agent_enter_def Agent_new_def)
  have c0: "cleanup CleaningAgent (?e0\<lparr>user := 1, status := COMPLETED\<rparr>) = (None, COMPLETED, 101)"
    by (simp add: CleaningAgent_def)
  have r1: "run ThrowingCleanupAgent ?e1 (Str ''x'') 5000 = (Inl (JsError ''Test error''), 2, 5001)"
    by (simp add: ThrowingCleanupAgent_def firstRunOnly_def Agent_enter_def Agent_new_def)
  have c1: "cleanup ThrowingCleanupAgent (?e1\<lparr>user := 2, status := FAILED\<rparr>) =
              (Some (JsError ''cleanup failed''), FAILED, 2)"
    by (simp add: ThrowingCleanupAgent_def)
  have r2: "run FailingAgent ?e0 (Str ''x'') 5000 = (Inl (JsError ''Test error''), 1, 5001)"
    by (simp add: FailingAgent_def scripted_def Agent_enter_def Agent_new_def)
  have b2: "cleanup FailingAgent = baseCleanup"
    by (simp add: FailingAgent_def scripted_def)
  note t0 = Agent_execute_lifecycle [where ctx = testContext and now = 5000 and ag = ?a0
      and cls = CleaningAgent and input = "Str ''x''" and heap = 0]
  note t1 = Agent_execute_lifecycle [where ctx = testContext and now = 5000 and ag = ?a1
      and cls = ThrowingCleanupAgent and input = "Str ''x''" and heap = 0]
  note t2 = Agent_execute_lifecycle [where ctx = testContext and now = 5000 and ag = ?a0
      and cls = FailingAgent and input = "Str ''x''" and heap = 0]
  from t0 have p0: "status ?e0 = RUNNING" by (rule conjunct1)
  from t0 r0 c0 have p1:
    "fst (Agent_execute CleaningAgent testContext (Str ''x'') ?a0 5000 0) =
       Inr \<lparr>success = True, data = Some (Obj [(''processed'', Str ''x'')]), error = None,
            metrics = Some (collectMetrics ?e0 5001 0)\<rparr> \<and>
     status (fst (snd (Agent_execute CleaningAgent testContext (Str ''x'') ?a0 5000 0))) = COMPLETED \<and>
     user (fst (snd (Agent_execute CleaningAgent testContext (Str ''x'') ?a0 5000 0))) = 101"
    by simp
  from t1 r1 c1 have p2:
    "fst (Agent_execute ThrowingCleanupAgent testContext (Str ''x'') ?a1 5000 0) =
       Inl (JsError ''cleanup failed'') \<and>
     status (fst (snd (Agent_execute ThrowingCleanupAgent testContext (Str ''x'') ?a1 5000 0))) = FAILED"
    by simp
  from t2 r2 b2 have p3:
    "fst (Agent_execute FailingAgent testContext (Str ''x'') ?a0 5000 0) =
       Inr \<lparr>success = False, data = None, error = Some (formatError (JsError ''Test error'')),
            metrics = Some (collectMetrics ?e0 5001 0)\<rparr> \<and>
     status (fst (snd (Agent_execute FailingAgent testContext (Str ''x'') ?a0 5000 0))) = FAILED"
    by simp
  from p0 p1 p2 p3 show ?thesis unfolding mt f by simp
qed

text \<open>
  C7 as stated has \<open>execute\<close> return the result on both paths, with the status
  \<open>COMPLETED\<close> or \<open>FAILED\<close>.  \<open>cleanup\<close> runs inside \<open>finally\<close>, on the agent itself: for
  a subclass whose \<open>cleanup\<close> throws, \<open>run\<close> returns a value and \<open>execute\<close> throws; for one
  whose \<open>cleanup\<close> assigns the status, \<open>run\<close> returns a value, \<open>execute\<close> returns the
  successful result and the status is \<open>IDLE\<close>.
\<close>

theorem cleanup_override_changes_outcome:
  "fst (run ThrowingCleanupAgent
          (Agent_enter testContext 5000 (Agent_new (testConfig ''test-agent'' None None) 0))
          (Str ''x'') 5000) = Inr (Obj [(''processed'', Str ''x'')]) \<and>
   fst (Agent_execute ThrowingCleanupAgent testContext (Str ''x'')
          (Agent_new (testConfig ''test-agent'' None None) 0) 5000 0) =
     Inl (JsError ''cleanup failed'') \<and>
   fst (run ResettingAgent
          (Agent_enter testContext 5000 (Agent_new (testConfig ''test-agent'' None None) 0))
          (Str ''x'') 5000) = Inr (Obj [(''processed'', Str ''x'')]) \<and>
   fst (Agent_execute ResettingAgent testContext (Str ''x'')
          (Agent_new (testConfig ''test-agent'' None None) 0) 5000 0) =
     Inr \<lparr>success = True, data = Some (Obj [(''processed'', Str ''x'')]), error = None,
          metrics = Some \<lparr>executionTime = 1, memoryUsed = Some 0, messagesProcessed = None,
                          retryCount = Some 0\<rparr>\<rparr> \<and>
   status (fst (snd (Agent_execute ResettingAgent testContext (Str ''x'')
                       (Agent_new (testConfig ''test-agent'' None None) 0) 5000 0))) = IDLE \<and>
   status (fst (snd (Agent_execute ResettingAgent testContext (Str ''x'')
                       (Agent_new (testConfig ''test-agent'' None None) 0) 5000 0))) \<noteq> COMPLETED"
  by code_simp

text \<open>
  C8.  From any status, \<open>suspend\<close> leaves the agent \<open>SUSPENDED\<close>; \<open>resume\<close> gives \<open>IDLE\<close>
  when the status is \<open>SUSPENDED\<close> and keeps the status otherwise, so it changes the agent
  exactly when the status is \<open>SUSPENDED\<close>.
\<close>

theorem suspend_resume_status:
  "status (suspend ag) = SUSPENDED \<and>
   status (resume ag) = (if status ag = SUSPENDED then IDLE else status ag) \<and>
   (resume ag = ag) = (status ag \<noteq> SUSPENDED)"
proof -
  have "status ag = SUSPENDED \<Longrightarrow> resume ag \<noteq> ag"
  proof
    assume s: "status ag = SUSPENDED" and e: "resume ag = ag"
    have "status (resume ag) = IDLE" using s by (simp add: resume_def)
    with e s show False by simp
  qed
  then show ?thesis by (auto simp add: suspend_def resume_def)
qed

subsection \<open>Circuit breaker\<close>

text \<open>
  C1.  A failure of the gated call in state \<open>HALF_OPEN\<close> is claimed to open the breaker
  whatever \<open>failureCount\<close> is.  The code does not: \<open>onFailure\<close> opens the breaker only when
  the incremented \<open>failureCount\<close> reaches \<open>threshold\<close>, and a success in \<open>HALF_OPEN\<close> has
  reset the count to 0.  With the default parameters, after five failures, a wait of 60
  seconds and one successful probe, the breaker is \<open>HALF_OPEN\<close> with \<open>failureCount = 0\<close>;
  the next failure records \<open>lastFailureTime\<close> and leaves it \<open>HALF_OPEN\<close>.
\<close>

theorem halfopen_failure_after_success_not_reopened:
  "state breakerAfterProbeSuccess = HALF_OPEN \<and>
   failureCount breakerAfterProbeSuccess = 0 \<and>
   CircuitBreaker_execute (\<lambda>s. s) raising breakerAfterProbeSuccess 61001 =
     (Inl (JsError ''boom''),
      breakerAfterProbeSuccess\<lparr>failureCount := 1, lastFailureTime := Some 61001\<rparr>, 61001) \<and>
   state (fst (snd (CircuitBreaker_execute (\<lambda>s. s) raising breakerAfterProbeSuccess 61001))) = HALF_OPEN"
proof -
  have bps: "breakerAfterProbeSuccess = \<lparr>state = HALF_OPEN, failureCount = 0, successCount = 1,
     lastFailureTime = Some 1000, threshold = 5, timeout = 60000, halfOpenAttempts = 3\<rparr>"
    by (simp add: breakerAfterProbeSuccess_def gateAt_def raising_def returning_def
        CircuitBreaker_execute_def CircuitBreaker_new_def onFailure_def onSuccess_def
        shouldAttemptReset_def Let_def)
  show ?thesis
    by (simp add: bps raising_def CircuitBreaker_execute_def onFailure_def Let_def)
qed


subsection \<open>What an execution leaves behind\<close>

text \<open>
  \<open>execute\<close> stores the context it is given in the agent and keeps the configuration,
  whether it returns or throws; a result it returns is either a success without an error
  or a failure with a formatted error.
\<close>

lemma Agent_execute_shape:
  "\<exists>out ag' t. Agent_execute cls ctx input ag now heap = (out, ag', t) \<and>
      agent_context ag' = Some ctx \<and> config ag' = config ag \<and>
      (\<forall>res. out = Inr res \<longrightarrow>
         (success res \<longrightarrow> error res = None) \<and>
         (\<not> success res \<longrightarrow> (\<exists>e. error res = Some (formatError e))))"
proof -
  obtain ran u t where r: "run cls (Agent_enter ctx now ag) input now = (ran, u, t)"
    by (cases "run cls (Agent_enter ctx now ag) input now") auto
  show ?thesis
  proof (cases ran)
    case (Inl e)
    obtain thrown st u' where
      c: "cleanup cls ((Agent_enter ctx now ag)\<lparr>user := u, status := FAILED\<rparr>) = (thrown, st, u')"
      by (cases "cleanup cls ((Agent_enter ctx now ag)\<lparr>user := u, status := FAILED\<rparr>)") auto
    with r Inl show ?thesis
      by (cases thrown) (auto simp add: Agent_execute_def Agent_enter_def Let_def)
  next
    case (Inr v)
    obtain thrown st u' where
      c: "cleanup cls ((Agent_enter ctx now ag)\<lparr>user := u, status := COMPLETED\<rparr>) = (thrown, st, u')"
      by (cases "cleanup cls ((Agent_enter ctx now ag)\<lparr>user := u, status := COMPLETED\<rparr>)") auto
    with r Inr show ?thesis
      by (cases thrown) (auto simp add: Agent_execute_def Agent_enter_def Let_def)
  qed
qed

lemma agentExecute_shape:
  "\<exists>out w'. agentExecute ref ctx input w = (out, w') \<and>
      agent_context (fst (objs w' ref)) = Some ctx \<and>
      config (fst (objs w' ref)) = config (fst (objs w ref)) \<and>
      (\<forall>r. r \<noteq> ref \<longrightarrow> objs w' r = objs w r) \<and>
      (\<forall>res. out = Inr res \<longrightarrow>
         (success res \<longrightarrow> error res = None) \<and>
         (\<not> success res \<longrightarrow> (\<exists>e. error res = Some (formatError e))))"
proof -
  obtain ag cls where o: "objs w ref = (ag, cls)" by (cases "objs w ref") auto
  from Agent_execute_shape [of cls ctx input ag "clock w" "heapUsed w"]
  obtain out ag' t where
    e: "Agent_execute cls ctx input ag (clock w) (heapUsed w) = (out, ag', t)"
    and p: "agent_context ag' = Some ctx" "config ag' = config ag"
      "\<forall>res. out = Inr res \<longrightarrow>
         (success res \<longrightarrow> error res = None) \<and>
         (\<not> success res \<longrightarrow> (\<exists>e. error res = Some (formatError e)))"
    by blast
  from o e have "agentExecute ref ctx input w =
      (out, w\<lparr>clock := t, objs := (objs w)(ref := (ag', cls))\<rparr>)"
    by (simp add: agentExecute_def)
  with p o show ?thesis by simp
qed

lemma agentExecute_success_error:
  "fst (agentExecute ref ctx input w) = Inr res \<Longrightarrow> success res \<Longrightarrow> error res = None"
  using agentExecute_shape [of ref ctx input w] by auto

lemma agentExecute_context:
  "agent_context (fst (objs (snd (agentExecute ref ctx input w)) ref)) = Some ctx"
  using agentExecute_shape [of ref ctx input w] by auto

lemma agentExecute_context_kept:
  "agent_context (fst (objs w r)) = Some ctx \<Longrightarrow>
   agent_context (fst (objs (snd (agentExecute ref ctx input w)) r)) = Some ctx"
  using agentExecute_shape [of ref ctx input w] by (cases "r = ref") auto

text \<open>The two ways out of the retry loop that need no further turn.\<close>

lemma retryLoop_exhausted:
  "\<not> attempt < n \<Longrightarrow>
   retryLoop call sl n m cap attempt delay le s =
     (Inl (case le of Some e \<Rightarrow> e | None \<Rightarrow> JsError ''Execution failed after retries''), s)"
  by (subst retryLoop.simps) simp

lemma retryLoop_success:
  "attempt < n \<Longrightarrow> call s = (Inr r, s1) \<Longrightarrow> success r \<Longrightarrow>
   retryLoop call sl n m cap attempt delay le s = (Inr (withRetryCount attempt r), s1)"
  by (subst retryLoop.simps) simp

text \<open>A result that the retry loop returns is that of a successful call, with \<open>retryCount\<close> set.\<close>

lemma retryLoop_Inr:
  "retryLoop call sl n m cap a d le s = (Inr r, s') \<Longrightarrow>
   \<exists>r0 s0. fst (call s0) = Inr r0 \<and> success r0 \<and> (\<exists>i. r = withRetryCount i r0)"
proof (induction call sl n m cap a d le s rule: retryLoop.induct)
  case (1 call sl n m cap a d le s)
  show ?case
  proof (cases "a < n")
    case False
    with "1.prems" show ?thesis by (simp add: retryLoop_exhausted)
  next
    case True
    obtain out s1 where c: "call s = (out, s1)" by (cases "call s") auto
    show ?thesis
    proof (cases out)
      case (Inr res)
      show ?thesis
      proof (cases "success res")
        case True
        with c Inr \<open>a < n\<close> "1.prems" have "r = withRetryCount a res"
          by (simp add: retryLoop_success)
        with c Inr True show ?thesis by (metis fst_conv)
      next
        case False
        show ?thesis
        proof (cases "a < n - 1")
          case True
          from "1.prems" c Inr False True \<open>a < n\<close>
          have "retryLoop call sl n m cap (a + 1) (jsTimes d m) (Some (resultError res))
                  (sl (Math_min d cap) s1) = (Inr r, s')"
            by (subst (asm) retryLoop.simps) simp
          from "1.IH"(3) [OF \<open>a < n\<close> c [symmetric] Inr False True this] show ?thesis .
        next
          case F2: False
          from "1.prems" c Inr False F2 \<open>a < n\<close>
          have "retryLoop call sl n m cap (a + 1) d (Some (resultError res)) s1 = (Inr r, s')"
            by (subst (asm) retryLoop.simps) simp
          from "1.IH"(4) [OF \<open>a < n\<close> c [symmetric] Inr False F2 this] show ?thesis .
        qed
      qed
    next
      case (Inl e)
      show ?thesis
      proof (cases "a < n - 1")
        case True
        from "1.prems" c Inl True \<open>a < n\<close>
        have "retryLoop call sl n m cap (a + 1) (jsTimes d m) (Some (caughtError e))
                (sl (Math_min d cap) s1) = (Inr r, s')"
          by (subst (asm) retryLoop.simps) simp
        from "1.IH"(1) [OF \<open>a < n\<close> c [symmetric] Inl True this] show ?thesis .
      next
        case F2: False
        from "1.prems" c Inl F2 \<open>a < n\<close>
        have "retryLoop call sl n m cap (a + 1) d (Some (caughtError e)) s1 = (Inr r, s')"
          by (subst (asm) retryLoop.simps) simp
        from "1.IH"(2) [OF \<open>a < n\<close> c [symmetric] Inl F2 this] show ?thesis .
      qed
    qed
  qed
qed

lemma withRetryCount_error: "error (withRetryCount i r) = error r"
  by (simp add: withRetryCount_def)

lemma agentExecuteWithRetry_Inr:
  fixes w :: "('v, 'u) World"
  assumes "agentExecuteWithRetry ref ctx input policy w = (Inr r, w')"
  shows "error r = None"
proof -
  from assms obtain n m cap d where
    "retryLoop (agentExecute ref ctx input) sleep n m cap 0 d None w = (Inr r, w')"
    by (simp add: agentExecuteWithRetry_def executeWithRetry_def Let_def)
  from retryLoop_Inr [OF this] obtain r0 and s0 :: "('v, 'u) World" and i where
    c: "fst (agentExecute ref ctx input s0) = Inr r0" and s: "success r0"
    and r: "r = withRetryCount i r0"
    by blast
  from c s have "error r0 = None" by (rule agentExecute_success_error)
  with r show ?thesis by (simp add: withRetryCount_error)
qed

lemma CircuitBreaker_execute_Inr:
  "CircuitBreaker_execute clk fn cb s = (Inr r, cb', s') \<Longrightarrow> fn s = (Inr r, s')"
  by (auto simp add: CircuitBreaker_execute_def Let_def split: if_splits prod.splits sum.splits)

text \<open>The error codes that the fallback manager returns.\<close>

lemma failure_code: "returnedCode (Inr (failure c msg)) = Some c"
  by (simp add: returnedCode_def failure_def)

lemma executeFallbackLoop_code:
  "returnedCode (fst (executeFallbackLoop ref ctx input n a w)) = None \<or>
   returnedCode (fst (executeFallbackLoop ref ctx input n a w)) = Some ''FALLBACK_FAILED''"
proof (induction ref ctx input n a w rule: executeFallbackLoop.induct)
  case (1 ref ctx input n a w)
  show ?case
  proof (cases "a < n")
    case False
    then show ?thesis by (subst (1 2) executeFallbackLoop.simps) (simp add: failure_code)
  next
    case True
    obtain out w1 where e: "agentExecute ref ctx input w = (out, w1)"
      by (cases "agentExecute ref ctx input w") auto
    show ?thesis
    proof (cases out)
      case (Inl thrown)
      with True e show ?thesis
        by (subst (1 2) executeFallbackLoop.simps) (simp add: returnedCode_def)
    next
      case (Inr res)
      show ?thesis
      proof (cases "success res")
        case s: True
        from e Inr have "fst (agentExecute ref ctx input w) = Inr res" by simp
        from agentExecute_success_error [OF this s] have "error res = None" .
        with True e Inr s show ?thesis
          by (subst (1 2) executeFallbackLoop.simps) (simp add: returnedCode_def)
      next
        case f: False
        from "1.IH" [OF True e [symmetric] Inr f] True e Inr f
        show ?thesis by (subst (1 2) executeFallbackLoop.simps) simp
      qed
    qed
  qed
qed

lemma executeFallback_code:
  "returnedCode (fst (executeFallback fm fb ctx input n w)) \<in>
     {None, Some ''FALLBACK_FAILED'', Some ''FALLBACK_AGENT_NOT_FOUND''}"
proof (cases "fm_agents fm fb")
  case None
  then show ?thesis by (simp add: executeFallback_def failure_code)
next
  case (Some ref)
  with executeFallbackLoop_code [of ref ctx input n 0 w] show ?thesis
    by (auto simp add: executeFallback_def)
qed

text \<open>
  \<open>executeWithFallback\<close> once the guarded call has been made: its outcome from that of
  the guarded call.
\<close>

lemma executeWithFallback_unfold:
  assumes "fm_agents fm aid = Some ref"
  shows "executeWithFallback fm aid ctx input fc w =
     (case (case circuitBreakers fm aid of
              Some cb \<Rightarrow>
                (case CircuitBreaker_execute clock
                        (agentExecuteWithRetry ref ctx input
                           (retryPolicy (getConfig (fst (objs w ref))))) cb w of
                   (out, cb', w1) \<Rightarrow>
                     (out, fm\<lparr>circuitBreakers := (circuitBreakers fm)(aid \<mapsto> cb')\<rparr>, w1))
            | None \<Rightarrow>
                (case agentExecuteWithRetry ref ctx input
                        (retryPolicy (getConfig (fst (objs w ref)))) w of
                   (out, w1) \<Rightarrow> (out, fm, w1))) of
        (Inr result, fm1, w1) \<Rightarrow> (Inr result, fm1, w1)
      | (Inl e, fm1, w1) \<Rightarrow>
          (case fallbackAgentId fc of
             Some fb \<Rightarrow>
               if enabled fc \<and> fb \<noteq> [] then
                 (case executeFallback fm1 fb ctx input (orDefault (maxFallbackAttempts fc) 1) w1 of
                    (out, w2) \<Rightarrow> (out, fm1, w2))
               else (Inr (failure ''EXECUTION_FAILED''
                            (case e of JsError m \<Rightarrow> m | NonError t \<Rightarrow> t)), fm1, w1)
           | None \<Rightarrow>
               (Inr (failure ''EXECUTION_FAILED''
                       (case e of JsError m \<Rightarrow> m | NonError t \<Rightarrow> t)), fm1, w1)))"
  unfolding executeWithFallback_def Let_def using assms by simp

lemma executeWithFallback_code:
  "returnedCode (fst (executeWithFallback fm aid ctx input fc w)) \<in>
     {None, Some ''AGENT_NOT_FOUND'', Some ''EXECUTION_FAILED'', Some ''FALLBACK_FAILED'',
      Some ''FALLBACK_AGENT_NOT_FOUND''}"
proof (cases "fm_agents fm aid")
  case None
  then show ?thesis by (simp add: executeWithFallback_def failure_code)
next
  case (Some ref)
  define policy where "policy = retryPolicy (getConfig (fst (objs w ref)))"
  define guarded where "guarded =
     (case circuitBreakers fm aid of
        Some cb \<Rightarrow>
          (case CircuitBreaker_execute clock (agentExecuteWithRetry ref ctx input policy) cb w of
             (out, cb', w1) \<Rightarrow> (out, fm\<lparr>circuitBreakers := (circuitBreakers fm)(aid \<mapsto> cb')\<rparr>, w1))
      | None \<Rightarrow>
          (case agentExecuteWithRetry ref ctx input policy w of (out, w1) \<Rightarrow> (out, fm, w1)))"
  obtain out fm1 w1 where g: "guarded = (out, fm1, w1)" by (cases guarded) auto
  note unf = executeWithFallback_unfold [OF Some, of ctx input fc w,
      folded policy_def, folded guarded_def]
  show ?thesis
  proof (cases out)
    case (Inr result)
    have h: "agentExecuteWithRetry ref ctx input policy w = (Inr result, w1)"
    proof (cases "circuitBreakers fm aid")
      case None
      with g Inr show ?thesis
        by (auto simp add: guarded_def split: prod.splits)
    next
      case (Some cb)
      with g Inr obtain cb' where
        "CircuitBreaker_execute clock (agentExecuteWithRetry ref ctx input policy) cb w =
           (Inr result, cb', w1)"
        by (auto simp add: guarded_def split: prod.splits)
      from CircuitBreaker_execute_Inr [OF this] show ?thesis .
    qed
    then have "error result = None" by (rule agentExecuteWithRetry_Inr)
    with unf g Inr show ?thesis by (simp add: returnedCode_def)
  next
    case (Inl e)
    show ?thesis
    proof (cases "fallbackAgentId fc")
      case None
      with unf g Inl show ?thesis by (simp add: failure_code)
    next
      case (Some fb)
      show ?thesis
      proof (cases "enabled fc \<and> fb \<noteq> []")
        case True
        with unf g Inl Some
        have eq: "fst (executeWithFallback fm aid ctx input fc w) =
              fst (executeFallback fm1 fb ctx input (orDefault (maxFallbackAttempts fc) 1) w1)"
          by (simp split: prod.splits)
        from executeFallback_code [of fm1 fb ctx input "orDefault (maxFallbackAttempts fc) 1" w1]
        show ?thesis unfolding eq by blast
      next
        case False
        with unf g Inl Some show ?thesis by (auto simp add: failure_code)
      qed
    qed
  qed
qed

subsection \<open>The open breaker\<close>




subsection \<open>Retry\<close>

lemma num_0: "num 0 = Finite 0 0"
  by code_simp

text \<open>A turn of the loop after which it goes on, and its last turn, when the attempt fails.\<close>

lemma retryLoop_retry:
  "attempt < n - 1 \<Longrightarrow> \<not> succeeded (fst (call s)) \<Longrightarrow>
   retryLoop call sl n m cap attempt delay le s =
     retryLoop call sl n m cap (attempt + 1) (jsTimes delay m) (Some (failureOf (fst (call s))))
       (sl (Math_min delay cap) (snd (call s)))"
  by (subst retryLoop.simps)
     (auto simp add: succeeded_def failureOf_def split: prod.splits sum.splits)

lemma retryLoop_last:
  "attempt < n \<Longrightarrow> \<not> attempt < n - 1 \<Longrightarrow> \<not> succeeded (fst (call s)) \<Longrightarrow>
   retryLoop call sl n m cap attempt delay le s = (Inl (failureOf (fst (call s))), snd (call s))"
  by (subst retryLoop.simps)
     (auto simp add: succeeded_def failureOf_def retryLoop_exhausted split: prod.splits sum.splits)

lemma retryLoop_all_fail:
  fixes calls :: "'s \<Rightarrow> nat" and slept :: "'s \<Rightarrow> Number list"
  assumes cnt: "\<And>s. calls (snd (call s)) = calls s + 1" "\<And>ms s. calls (sl ms s) = calls s"
      and lg: "\<And>s. slept (snd (call s)) = slept s" "\<And>ms s. slept (sl ms s) = slept s @ [ms]"
  shows "0 \<le> a \<Longrightarrow> n = a + int (Suc j) \<Longrightarrow>
         (\<forall>s'. calls s' < calls s + Suc j \<longrightarrow> \<not> succeeded (fst (call s'))) \<Longrightarrow>
         \<exists>s1. retryLoop call sl n m cap a (loopDelay d m (nat a)) le s =
                 (Inl (failureOf (fst (call s1))), snd (call s1)) \<and>
               calls (snd (call s1)) = calls s + Suc j \<and>
               slept (snd (call s1)) = slept s @ map (retryWait d m cap) [nat a..<nat a + j]"
proof (induction j arbitrary: a s le)
  case 0
  then have "retryLoop call sl n m cap a (loopDelay d m (nat a)) le s =
             (Inl (failureOf (fst (call s))), snd (call s))"
    by (intro retryLoop_last) auto
  then show ?case using cnt lg by auto
next
  case (Suc j)
  let ?s2 = "sl (Math_min (loopDelay d m (nat a)) cap) (snd (call s))"
  have f: "\<not> succeeded (fst (call s))" using Suc.prems(3) by simp
  have step: "retryLoop call sl n m cap a (loopDelay d m (nat a)) le s =
        retryLoop call sl n m cap (a + 1) (jsTimes (loopDelay d m (nat a)) m)
          (Some (failureOf (fst (call s)))) ?s2"
    using Suc.prems(1,2) f by (intro retryLoop_retry) auto
  have na: "nat (a + 1) = Suc (nat a)" using Suc.prems(1) by simp
  have pw: "jsTimes (loopDelay d m (nat a)) m = loopDelay d m (nat (a + 1))"
    unfolding na by simp
  have c2: "calls ?s2 = calls s + 1" using cnt by simp
  have l2: "slept ?s2 = slept s @ [retryWait d m cap (nat a)]"
    using lg by (simp add: retryWait_def)
  have "\<exists>s1. retryLoop call sl n m cap (a + 1) (loopDelay d m (nat (a + 1)))
                 (Some (failureOf (fst (call s)))) ?s2 =
                 (Inl (failureOf (fst (call s1))), snd (call s1)) \<and>
               calls (snd (call s1)) = calls ?s2 + Suc j \<and>
               slept (snd (call s1)) =
                 slept ?s2 @ map (retryWait d m cap) [nat (a + 1)..<nat (a + 1) + j]"
  proof (rule Suc.IH)
    show "0 \<le> a + 1" using Suc.prems(1) by simp
    show "n = a + 1 + int (Suc j)" using Suc.prems(2) by simp
    show "\<forall>s'. calls s' < calls ?s2 + Suc j \<longrightarrow> \<not> succeeded (fst (call s'))"
      using Suc.prems(3) c2 by simp
  qed
  then obtain s1 where
    r: "retryLoop call sl n m cap (a + 1) (loopDelay d m (nat (a + 1)))
          (Some (failureOf (fst (call s)))) ?s2 = (Inl (failureOf (fst (call s1))), snd (call s1))"
    and c: "calls (snd (call s1)) = calls ?s2 + Suc j"
    and l: "slept (snd (call s1)) =
              slept ?s2 @ map (retryWait d m cap) [nat (a + 1)..<nat (a + 1) + j]"
    by blast
  have "[nat a..<nat a + Suc j] = nat a # [Suc (nat a)..<Suc (nat a) + j]"
    by (simp add: upt_conv_Cons)
  with l l2 na have "slept (snd (call s1)) = slept s @ map (retryWait d m cap) [nat a..<nat a + Suc j]"
    by simp
  with step pw r c c2 show ?case by auto
qed

lemma retryLoop_first_success:
  fixes calls :: "'s \<Rightarrow> nat" and slept :: "'s \<Rightarrow> Number list"
  assumes cnt: "\<And>s. calls (snd (call s)) = calls s + 1" "\<And>ms s. calls (sl ms s) = calls s"
      and lg: "\<And>s. slept (snd (call s)) = slept s" "\<And>ms s. slept (sl ms s) = slept s @ [ms]"
  shows "0 \<le> a \<Longrightarrow> a + int i < n \<Longrightarrow>
         (\<forall>s'. calls s' < calls s + i \<longrightarrow> \<not> succeeded (fst (call s'))) \<Longrightarrow>
         (\<forall>s'. calls s' = calls s + i \<longrightarrow> succeeded (fst (call s'))) \<Longrightarrow>
         \<exists>r s1. retryLoop call sl n m cap a (loopDelay d m (nat a)) le s =
                   (Inr (withRetryCount (a + int i) r), snd (call s1)) \<and>
                 fst (call s1) = Inr r \<and> success r \<and>
                 calls (snd (call s1)) = calls s + i + 1 \<and>
                 slept (snd (call s1)) = slept s @ map (retryWait d m cap) [nat a..<nat a + i]"
proof (induction i arbitrary: a s le)
  case 0
  then have "succeeded (fst (call s))" by simp
  then obtain r where r: "fst (call s) = Inr r" "success r"
    by (auto simp add: succeeded_def split: sum.splits)
  then have "call s = (Inr r, snd (call s))" by (metis prod.collapse)
  with 0 r have "retryLoop call sl n m cap a (loopDelay d m (nat a)) le s =
                   (Inr (withRetryCount a r), snd (call s))"
    by (intro retryLoop_success) auto
  with r show ?case using cnt lg by auto
next
  case (Suc i)
  let ?s2 = "sl (Math_min (loopDelay d m (nat a)) cap) (snd (call s))"
  have f: "\<not> succeeded (fst (call s))" using Suc.prems(3) by simp
  have step: "retryLoop call sl n m cap a (loopDelay d m (nat a)) le s =
        retryLoop call sl n m cap (a + 1) (jsTimes (loopDelay d m (nat a)) m)
          (Some (failureOf (fst (call s)))) ?s2"
    using Suc.prems(1,2) f by (intro retryLoop_retry) auto
  have na: "nat (a + 1) = Suc (nat a)" using Suc.prems(1) by simp
  have pw: "jsTimes (loopDelay d m (nat a)) m = loopDelay d m (nat (a + 1))"
    unfolding na by simp
  have c2: "calls ?s2 = calls s + 1" using cnt by simp
  have l2: "slept ?s2 = slept s @ [retryWait d m cap (nat a)]"
    using lg by (simp add: retryWait_def)
  have "\<exists>r s1. retryLoop call sl n m cap (a + 1) (loopDelay d m (nat (a + 1)))
                   (Some (failureOf (fst (call s)))) ?s2 =
                   (Inr (withRetryCount (a + 1 + int i) r), snd (call s1)) \<and>
                 fst (call s1) = Inr r \<and> success r \<and>
                 calls (snd (call s1)) = calls ?s2 + i + 1 \<and>
                 slept (snd (call s1)) =
                   slept ?s2 @ map (retryWait d m cap) [nat (a + 1)..<nat (a + 1) + i]"
  proof (rule Suc.IH)
    show "0 \<le> a + 1" using Suc.prems(1) by simp
    show "a + 1 + int i < n" using Suc.prems(2) by simp
    show "\<forall>s'. calls s' < calls ?s2 + i \<longrightarrow> \<not> succeeded (fst (call s'))"
      using Suc.prems(3) c2 by simp
    show "\<forall>s'. calls s' = calls ?s2 + i \<longrightarrow> succeeded (fst (call s'))"
      using Suc.prems(4) c2 by simp
  qed
  then obtain r s1 where
    r: "retryLoop call sl n m cap (a + 1) (loopDelay d m (nat (a + 1)))
          (Some (failureOf (fst (call s)))) ?s2 =
          (Inr (withRetryCount (a + 1 + int i) r), snd (call s1))"
    and ok: "fst (call s1) = Inr r" "success r"
    and c: "calls (snd (call s1)) = calls ?s2 + i + 1"
    and l: "slept (snd (call s1)) =
              slept ?s2 @ map (retryWait d m cap) [nat (a + 1)..<nat (a + 1) + i]"
    by blast
  have "[nat a..<nat a + Suc i] = nat a # [Suc (nat a)..<Suc (nat a) + i]"
    by (simp add: upt_conv_Cons)
  with l l2 na have l': "slept (snd (call s1)) = slept s @ map (retryWait d m cap) [nat a..<nat a + Suc i]"
    by simp
  have idx: "a + 1 + int i = a + int (Suc i)" by simp
  from step pw r ok c c2 l' idx show ?case by auto
qed

lemma withRetryCount_retryCount:
  "Option.bind (metrics (withRetryCount i r)) retryCount = Some i"
  by (simp add: withRetryCount_def split: option.splits)

text \<open>
  The schedule of the loop, in the arithmetic of the code.  Let \<open>n\<close>, \<open>d\<close>, \<open>m\<close> and \<open>cap\<close>
  be what the loop reads from the policy (\<open>||\<close> with the defaults 1, 1000, 2 and 30000),
  and let \<open>n \<ge> 1\<close>.  The calls and the waits are observed through \<open>calls\<close>, which every
  call increments, and \<open>slept\<close>, to which every sleep appends its argument.  If every
  attempt fails, the loop makes exactly \<open>n\<close> calls, waits \<open>retryWait d m cap i\<close> after
  attempt \<open>i\<close> for \<open>i = 0 \<dots> n - 2\<close>, and throws the failure of the last call.  If the
  attempts before attempt \<open>i < n\<close> fail and attempt \<open>i\<close> succeeds, the result of that call
  is returned with \<open>retryCount = i\<close>, after \<open>i + 1\<close> calls and the first \<open>i\<close> waits.
\<close>

lemma executeWithRetry_schedule:
  fixes calls :: "'s \<Rightarrow> nat" and slept :: "'s \<Rightarrow> Number list"
  assumes n: "n = orDefault (map_option maxAttempts policy) 1"
      and d: "d = numberOrDefault (Option.bind policy initialDelay) (num 1000)"
      and m: "m = numberOrDefault (Option.bind policy backoffMultiplier) (num 2)"
      and cap: "cap = numberOrDefault (Option.bind policy maxDelay) (num 30000)"
      and pos: "1 \<le> n"
      and cnt: "\<And>s. calls (snd (call s)) = calls s + 1" "\<And>ms s. calls (sl ms s) = calls s"
      and lg: "\<And>s. slept (snd (call s)) = slept s" "\<And>ms s. slept (sl ms s) = slept s @ [ms]"
  shows "((\<forall>s'. calls s' < calls s + nat n \<longrightarrow> \<not> succeeded (fst (call s'))) \<longrightarrow>
           (\<exists>s1. executeWithRetry call sl policy s =
                    (Inl (failureOf (fst (call s1))), snd (call s1)) \<and>
                  calls (snd (call s1)) = calls s + nat n \<and>
                  slept (snd (call s1)) = slept s @ map (retryWait d m cap) [0..<nat n - 1])) \<and>
         (\<forall>i<nat n.
            (\<forall>s'. calls s' < calls s + i \<longrightarrow> \<not> succeeded (fst (call s'))) \<and>
            (\<forall>s'. calls s' = calls s + i \<longrightarrow> succeeded (fst (call s'))) \<longrightarrow>
            (\<exists>r s1. executeWithRetry call sl policy s =
                       (Inr (withRetryCount (int i) r), snd (call s1)) \<and>
                     fst (call s1) = Inr r \<and> success r \<and>
                     Option.bind (metrics (withRetryCount (int i) r)) retryCount = Some (int i) \<and>
                     calls (snd (call s1)) = calls s + i + 1 \<and>
                     slept (snd (call s1)) = slept s @ map (retryWait d m cap) [0..<i]))"
proof -
  have unfold: "executeWithRetry call sl policy s =
                  retryLoop call sl n m cap 0 (loopDelay d m (nat 0)) None s"
    using n d m cap by (simp add: executeWithRetry_def Let_def)
  obtain j where j: "nat n = Suc j" using pos by (cases "nat n") auto
  have nj: "n = 0 + int (Suc j)" using j pos by linarith
  have A: "(\<forall>s'. calls s' < calls s + nat n \<longrightarrow> \<not> succeeded (fst (call s'))) \<longrightarrow>
           (\<exists>s1. executeWithRetry call sl policy s =
                    (Inl (failureOf (fst (call s1))), snd (call s1)) \<and>
                  calls (snd (call s1)) = calls s + nat n \<and>
                  slept (snd (call s1)) = slept s @ map (retryWait d m cap) [0..<nat n - 1])"
  proof
    assume "\<forall>s'. calls s' < calls s + nat n \<longrightarrow> \<not> succeeded (fst (call s'))"
    then have f: "\<forall>s'. calls s' < calls s + Suc j \<longrightarrow> \<not> succeeded (fst (call s'))"
      using j by simp
    from retryLoop_all_fail [where calls = calls and slept = slept and d = d and m = m
        and cap = cap and le = None, OF cnt lg _ nj f]
    show "\<exists>s1. executeWithRetry call sl policy s =
                    (Inl (failureOf (fst (call s1))), snd (call s1)) \<and>
                  calls (snd (call s1)) = calls s + nat n \<and>
                  slept (snd (call s1)) = slept s @ map (retryWait d m cap) [0..<nat n - 1]"
      using unfold j by simp
  qed
  have B: "\<forall>i<nat n.
            (\<forall>s'. calls s' < calls s + i \<longrightarrow> \<not> succeeded (fst (call s'))) \<and>
            (\<forall>s'. calls s' = calls s + i \<longrightarrow> succeeded (fst (call s'))) \<longrightarrow>
            (\<exists>r s1. executeWithRetry call sl policy s =
                       (Inr (withRetryCount (int i) r), snd (call s1)) \<and>
                     fst (call s1) = Inr r \<and> success r \<and>
                     Option.bind (metrics (withRetryCount (int i) r)) retryCount = Some (int i) \<and>
                     calls (snd (call s1)) = calls s + i + 1 \<and>
                     slept (snd (call s1)) = slept s @ map (retryWait d m cap) [0..<i])"
  proof (intro allI impI)
    fix i
    assume i: "i < nat n"
      and h: "(\<forall>s'. calls s' < calls s + i \<longrightarrow> \<not> succeeded (fst (call s'))) \<and>
              (\<forall>s'. calls s' = calls s + i \<longrightarrow> succeeded (fst (call s')))"
    from i have lt: "0 + int i < n" by linarith
    from retryLoop_first_success [where calls = calls and slept = slept and d = d and m = m
        and cap = cap and le = None, OF cnt lg _ lt conjunct1 [OF h] conjunct2 [OF h]]
    show "\<exists>r s1. executeWithRetry call sl policy s =
                       (Inr (withRetryCount (int i) r), snd (call s1)) \<and>
                     fst (call s1) = Inr r \<and> success r \<and>
                     Option.bind (metrics (withRetryCount (int i) r)) retryCount = Some (int i) \<and>
                     calls (snd (call s1)) = calls s + i + 1 \<and>
                     slept (snd (call s1)) = slept s @ map (retryWait d m cap) [0..<i]"
      using unfold by (simp add: withRetryCount_retryCount)
  qed
  from A B show ?thesis by (rule conjI)
qed

text \<open>
  C2.  The wait before the first retry is claimed to be \<open>min(initialDelay, maxDelay)\<close>
  for every policy.  The code reads the policy with \<open>initialDelay || 1000\<close>, so an
  \<open>initialDelay\<close> of 0 is taken for a missing one: under any policy and for any call,
  \<open>executeWithRetry\<close> with \<open>initialDelay = 0\<close> does what it does with no \<open>initialDelay\<close>.
  For an agent whose \<open>run\<close> always throws, configured with \<open>maxAttempts = 2\<close>,
  \<open>initialDelay = 0\<close>, \<open>backoffMultiplier = 2\<close> and \<open>maxDelay = 30000\<close>,
  \<open>executeWithFallback\<close> runs the agent twice and returns its error as
  \<open>EXECUTION_FAILED\<close>, and between the two runs it waits 1000 ms, not 0 ms.  Any other
  \<open>initialDelay\<close> is honoured: with 1 the wait is 1 ms, with 0.5 it is 0.5 ms.
\<close>

theorem zero_initialDelay_waits_default:
  "executeWithRetry call sl (Some (policy\<lparr>initialDelay := Some (num 0)\<rparr>)) s =
     executeWithRetry call sl (Some (policy\<lparr>initialDelay := None\<rparr>)) s \<and>
   fst (failingRetry (num 0)) =
     Inr \<lparr>success = False, data = None,
          error = Some \<lparr>code = ''EXECUTION_FAILED'', message = ''Test error''\<rparr>,
          metrics = None\<rparr> \<and>
   user (fst (objs (snd (snd (failingRetry (num 0)))) 0)) = 2 \<and>
   sleeps (snd (snd (failingRetry (num 0)))) = [num 1000] \<and>
   sleeps (snd (snd (failingRetry (num 0)))) \<noteq> [num 0] \<and>
   sleeps (snd (snd (failingRetry (num 1)))) = [num 1] \<and>
   sleeps (snd (snd (failingRetry (Finite 1 (- 1))))) = [Finite 1 (- 1)]"
proof -
  have a: "executeWithRetry call sl (Some (policy\<lparr>initialDelay := Some (num 0)\<rparr>)) s =
           executeWithRetry call sl (Some (policy\<lparr>initialDelay := None\<rparr>)) s"
    by (simp add: executeWithRetry_def numberOrDefault_def falsy_def isZero_def num_0 Let_def)
  have b: "fst (failingRetry (num 0)) =
     Inr \<lparr>success = False, data = None,
          error = Some \<lparr>code = ''EXECUTION_FAILED'', message = ''Test error''\<rparr>,
          metrics = None\<rparr> \<and>
   user (fst (objs (snd (snd (failingRetry (num 0)))) 0)) = 2 \<and>
   sleeps (snd (snd (failingRetry (num 0)))) = [num 1000] \<and>
   sleeps (snd (snd (failingRetry (num 0)))) \<noteq> [num 0] \<and>
   sleeps (snd (snd (failingRetry (num 1)))) = [num 1] \<and>
   sleeps (snd (snd (failingRetry (Finite 1 (- 1))))) = [Finite 1 (- 1)]"
    by code_simp
  from a b show ?thesis by (rule conjI)
qed

subsection \<open>Broadcast\<close>

text \<open>One \<open>sendMessage\<close> hands one message to the transport and answers as the transport did.\<close>

lemma sendMessage_recorded:
  assumes "sendMessage (recording tr) from to ty pl opts bus w = (out, bus', w')"
  shows "\<exists>m r. snd (transport bus') = snd (transport bus) @ [(m, r)] \<and>
               msg_to m = to \<and> msg_from m = from \<and> msg_type m = ty \<and> payload m = pl \<and>
               out = (case r of None \<Rightarrow> Inr (msg_id m) | Some e \<Rightarrow> Inl e)"
proof -
  obtain mid w1 where g: "generateMessageId w = (mid, w1)"
    by (cases "generateMessageId w") auto
  define m where "m = \<lparr>msg_id = mid, msg_from = from, msg_to = to, msg_type = ty, payload = pl,
                      priority = (case Option.bind opts opt_priority of
                                    None \<Rightarrow> NORMAL | Some p \<Rightarrow> p),
                      msg_timestamp = clock w1,
                      msg_correlationId = Option.bind opts opt_correlationId,
                      replyTo = Option.bind opts opt_replyTo,
                      msg_metadata = Option.bind opts opt_metadata\<rparr>"
  obtain r t' w2 where snd: "send tr m (fst (transport bus)) w1 = (r, t', w2)"
    by (cases "send tr m (fst (transport bus)) w1") auto
  have rec: "send (recording tr) m (transport bus) w1 = (r, (t', snd (transport bus) @ [(m, r)]), w2)"
    using snd by (simp add: recording_def)
  have unf: "sendMessage (recording tr) from to ty pl opts bus w =
        (case r of None \<Rightarrow> Inr (msg_id m) | Some e \<Rightarrow> Inl e,
         bus\<lparr>transport := (t', snd (transport bus) @ [(m, r)])\<rparr>, w2)"
    unfolding sendMessage_def g m_def [symmetric] Let_def prod.case rec
    by (cases r) simp_all
  with assms have "out = (case r of None \<Rightarrow> Inr (msg_id m) | Some e \<Rightarrow> Inl e)"
    and "bus' = bus\<lparr>transport := (t', snd (transport bus) @ [(m, r)])\<rparr>"
    by simp_all
  moreover have "msg_to m = to" "msg_from m = from" "msg_type m = ty" "payload m = pl"
    by (simp_all add: m_def)
  ultimately show ?thesis by auto
qed

lemma broadcastLoop_recorded:
  "broadcastLoop (recording tr) from recipients ty pl opts acc bus w = (out, bus', w') \<Longrightarrow>
   \<exists>sent. snd (transport bus') = snd (transport bus) @ sent \<and>
          map (\<lambda>x. msg_to (fst x)) sent = take (length sent) recipients \<and>
          (\<forall>x\<in>set sent. msg_from (fst x) = from \<and> msg_type (fst x) = ty \<and> payload (fst x) = pl) \<and>
          (case out of
             Inr ids \<Rightarrow> ids = acc @ map (\<lambda>x. msg_id (fst x)) sent \<and>
                        length sent = length recipients \<and> (\<forall>x\<in>set sent. snd x = None)
           | Inl e \<Rightarrow> sent \<noteq> [] \<and> snd (last sent) = Some e \<and>
                      (\<forall>x\<in>set (butlast sent). snd x = None))"
proof (induction recipients arbitrary: acc bus w)
  case Nil
  then show ?case by auto
next
  case (Cons r rest)
  obtain o1 bus1 w1 where s1: "sendMessage (recording tr) from r ty pl opts bus w = (o1, bus1, w1)"
    by (cases "sendMessage (recording tr) from r ty pl opts bus w") auto
  from sendMessage_recorded [OF s1] obtain m res where
    log1: "snd (transport bus1) = snd (transport bus) @ [(m, res)]"
    and m: "msg_to m = r" "msg_from m = from" "msg_type m = ty" "payload m = pl"
    and o1: "o1 = (case res of None \<Rightarrow> Inr (msg_id m) | Some e \<Rightarrow> Inl e)"
    by blast
  show ?case
  proof (cases res)
    case None
    with o1 have o1': "o1 = Inr (msg_id m)" by simp
    with Cons.prems s1
    have rest: "broadcastLoop (recording tr) from rest ty pl opts (acc @ [msg_id m]) bus1 w1 =
                  (out, bus', w')"
      by simp
    from Cons.IH [OF rest] obtain sent where
      a: "snd (transport bus') = snd (transport bus1) @ sent"
      and b: "map (\<lambda>x. msg_to (fst x)) sent = take (length sent) rest"
      and c: "\<forall>x\<in>set sent. msg_from (fst x) = from \<and> msg_type (fst x) = ty \<and> payload (fst x) = pl"
      and d: "(case out of
             Inr ids \<Rightarrow> ids = (acc @ [msg_id m]) @ map (\<lambda>x. msg_id (fst x)) sent \<and>
                        length sent = length rest \<and> (\<forall>x\<in>set sent. snd x = None)
           | Inl e \<Rightarrow> sent \<noteq> [] \<and> snd (last sent) = Some e \<and>
                      (\<forall>x\<in>set (butlast sent). snd x = None))"
      by blast
    let ?sent = "(m, res) # sent"
    have "snd (transport bus') = snd (transport bus) @ ?sent" using a log1 by simp
    moreover have "map (\<lambda>x. msg_to (fst x)) ?sent = take (length ?sent) (r # rest)"
      using b m by simp
    moreover have "\<forall>x\<in>set ?sent. msg_from (fst x) = from \<and> msg_type (fst x) = ty \<and> payload (fst x) = pl"
      using c m by simp
    moreover have "(case out of
             Inr ids \<Rightarrow> ids = acc @ map (\<lambda>x. msg_id (fst x)) ?sent \<and>
                        length ?sent = length (r # rest) \<and> (\<forall>x\<in>set ?sent. snd x = None)
           | Inl e \<Rightarrow> ?sent \<noteq> [] \<and> snd (last ?sent) = Some e \<and>
                      (\<forall>x\<in>set (butlast ?sent). snd x = None))"
      using d None by (cases out) auto
    ultimately show ?thesis by blast
  next
    case (Some e)
    with o1 have o1': "o1 = Inl e" by simp
    with Cons.prems s1 have "out = Inl e" "bus' = bus1" by simp_all
    with log1 m Some show ?thesis
      by (intro exI [of _ "[(m, res)]"]) simp
  qed
qed

text \<open>
  C5, as the code has it, on a transport that records what it is handed.  The messages
  handed to the transport are addressed to a prefix of \<open>recipients\<close>, in order.  If the
  broadcast resolves, every recipient was sent to, every send succeeded, and the ids
  returned are those of the messages, in the order of \<open>recipients\<close>.  If it rejects, the
  last message handed over is the one whose send failed, no later recipient was tried, and
  the broadcast rejects with the thrown value of that send and nothing else: the ids of
  the messages already sent are not part of the outcome.
\<close>

theorem broadcast_recorded:
  assumes "broadcast (recording tr) from recipients ty pl options bus w = (out, bus', w')"
  shows "\<exists>sent. snd (transport bus') = snd (transport bus) @ sent \<and>
           map (\<lambda>x. msg_to (fst x)) sent = take (length sent) recipients \<and>
           (\<forall>x\<in>set sent. msg_from (fst x) = from \<and> msg_type (fst x) = ty \<and> payload (fst x) = pl) \<and>
           (case out of
              Inr ids \<Rightarrow> length ids = length recipients \<and> length sent = length recipients \<and>
                         ids = map (\<lambda>x. msg_id (fst x)) sent \<and> (\<forall>x\<in>set sent. snd x = None)
            | Inl e \<Rightarrow> sent \<noteq> [] \<and> snd (last sent) = Some e \<and>
                       (\<forall>x\<in>set (butlast sent). snd x = None))"
proof -
  from assms obtain opts where
    "broadcastLoop (recording tr) from recipients ty pl opts [] bus w = (out, bus', w')"
    by (simp add: broadcast_def)
  from broadcastLoop_recorded [OF this] obtain sent where
    a: "snd (transport bus') = snd (transport bus) @ sent"
    and b: "map (\<lambda>x. msg_to (fst x)) sent = take (length sent) recipients"
    and c: "\<forall>x\<in>set sent. msg_from (fst x) = from \<and> msg_type (fst x) = ty \<and> payload (fst x) = pl"
    and d: "(case out of
             Inr ids \<Rightarrow> ids = [] @ map (\<lambda>x. msg_id (fst x)) sent \<and>
                        length sent = length recipients \<and> (\<forall>x\<in>set sent. snd x = None)
           | Inl e \<Rightarrow> sent \<noteq> [] \<and> snd (last sent) = Some e \<and>
                      (\<forall>x\<in>set (butlast sent). snd x = None))"
    by blast
  from d have "(case out of
              Inr ids \<Rightarrow> length ids = length recipients \<and> length sent = length recipients \<and>
                         ids = map (\<lambda>x. msg_id (fst x)) sent \<and> (\<forall>x\<in>set sent. snd x = None)
            | Inl e \<Rightarrow> sent \<noteq> [] \<and> snd (last sent) = Some e \<and>
                       (\<forall>x\<in>set (butlast sent). snd x = None))"
    by (cases out) auto
  with a b c show ?thesis by blast
qed

theorem broadcast_recorded_witness:
  "fst (broadcast (recording testTransport) ''s'' [''a'', ''b'', ''c''] ''t'' (Num 1) None
          recordingBus testWorld) = Inl (JsError ''handler failed'') \<and>
   map (\<lambda>x. (msg_to (fst x), msg_id (fst x), snd x))
     (snd (transport (fst (snd (broadcast (recording testTransport) ''s'' [''a'', ''b'', ''c''] ''t''
                                  (Num 1) None recordingBus testWorld))))) =
     [(''a'', ''msg-1000-r0'', None), (''b'', ''msg-1000-r1'', Some (JsError ''handler failed''))] \<and>
   fst (broadcast (recording testTransport) ''s'' [''a'', ''c''] ''t'' (Num 1) None
          recordingBus testWorld) = Inr [''msg-1000-r0'', ''msg-1000-r1''] \<and>
   (\<exists>sent. snd (transport (fst (snd (broadcast (recording testTransport) ''s'' [''a'', ''c''] ''t''
                                        (Num 1) None recordingBus testWorld)))) = sent \<and>
           map (\<lambda>x. msg_to (fst x)) sent = [''a'', ''c''] \<and>
           map (\<lambda>x. msg_id (fst x)) sent = [''msg-1000-r0'', ''msg-1000-r1''])"
proof -
  let ?b1 = "broadcast (recording testTransport) ''s'' [''a'', ''b'', ''c''] ''t'' (Num 1) None
          recordingBus testWorld"
  let ?b2 = "broadcast (recording testTransport) ''s'' [''a'', ''c''] ''t'' (Num 1) None
          recordingBus testWorld"
  have e1: "fst ?b1 = Inl (JsError ''handler failed'')" by code_simp
  have e2: "map (\<lambda>x. (msg_to (fst x), msg_id (fst x), snd x)) (snd (transport (fst (snd ?b1)))) =
     [(''a'', ''msg-1000-r0'', None), (''b'', ''msg-1000-r1'', Some (JsError ''handler failed''))]"
    by code_simp
  have e3: "fst ?b2 = Inr [''msg-1000-r0'', ''msg-1000-r1'']" by code_simp
  have l0: "snd (transport recordingBus) = []" by code_simp
  have "?b2 = (fst ?b2, fst (snd ?b2), snd (snd ?b2))" by simp
  from broadcast_recorded [OF this] obtain sent where
    a: "snd (transport (fst (snd ?b2))) = snd (transport recordingBus) @ sent"
    and b: "map (\<lambda>x. msg_to (fst x)) sent = take (length sent) [''a'', ''c'']"
    and d: "(case fst ?b2 of
              Inr ids \<Rightarrow> length ids = length [''a'', ''c''] \<and> length sent = length [''a'', ''c''] \<and>
                         ids = map (\<lambda>x. msg_id (fst x)) sent \<and> (\<forall>x\<in>set sent. snd x = None)
            | Inl e \<Rightarrow> sent \<noteq> [] \<and> snd (last sent) = Some e \<and>
                       (\<forall>x\<in>set (butlast sent). snd x = None))"
    by blast
  from d e3 have len: "length sent = 2" and ids: "map (\<lambda>x. msg_id (fst x)) sent = [''msg-1000-r0'', ''msg-1000-r1'']"
    by simp_all
  from b len have tos: "map (\<lambda>x. msg_to (fst x)) sent = [''a'', ''c'']" by simp
  from a l0 have "snd (transport (fst (snd ?b2))) = sent" by simp
  with tos ids have e4: "\<exists>sent. snd (transport (fst (snd ?b2))) = sent \<and>
           map (\<lambda>x. msg_to (fst x)) sent = [''a'', ''c''] \<and>
           map (\<lambda>x. msg_id (fst x)) sent = [''msg-1000-r0'', ''msg-1000-r1'']"
    by simp
  from e1 e2 e3 e4 show ?thesis by (intro conjI)
qed

text \<open>
  C5 as stated fails in its last part.  With the in-memory transport and a handler of
  \<open>b\<close> that throws, the broadcast to \<open>a\<close>, \<open>b\<close>, \<open>c\<close> delivers the message
  \<open>msg-1000-r0\<close> to \<open>a\<close> and then rejects with the handler's error; the caller gets the
  error and no id.
\<close>

theorem broadcast_rejection_carries_no_ids:
  "fst (broadcast testTransport ''s'' [''a'', ''b'', ''c''] ''t'' (Num 1) None
          busWithFailingHandler testWorld) = Inl (JsError ''handler failed'') \<and>
   map_option (map msg_id)
     (messages (transport (fst (snd (broadcast testTransport ''s'' [''a'', ''b'', ''c''] ''t'' (Num 1)
                                       None busWithFailingHandler testWorld)))) ''a'') =
     Some [''msg-1000-r0''] \<and>
   messages (transport (fst (snd (broadcast testTransport ''s'' [''a'', ''b'', ''c''] ''t'' (Num 1)
                                    None busWithFailingHandler testWorld)))) ''c'' = None"
  by code_simp

subsection \<open>Orchestrator\<close>

text \<open>
  C6, as the code has it.  Registering an agent object whose id is already registered
  throws an \<open>Error\<close> with the message \<open>Agent <id> is already registered\<close> and leaves the
  orchestrator as it was: the agent registered first is still the one found under the
  id, and \<open>executeAgent\<close> for the id does what it did before.
\<close>

theorem registerAgent_duplicate:
  assumes "agents orch (getId (fst (objs w ref))) = Some ref0"
  shows "registerAgent tr ref orch w =
           (Some (JsError (''Agent '' @ getId (fst (objs w ref)) @ '' is already registered'')), orch) \<and>
         agents (snd (registerAgent tr ref orch w)) (getId (fst (objs w ref))) = Some ref0 \<and>
         executeAgent (getId (fst (objs w ref))) input partial (snd (registerAgent tr ref orch w)) w' =
           executeAgent (getId (fst (objs w ref))) input partial orch w'"
  using assms by (simp add: registerAgent_def Let_def)

theorem registerAgent_duplicate_witness:
  "registerAgent testTransport 1 (registerAll [0] (newOrchestrator None)) testWorld =
     (Some (JsError ''Agent agent-1 is already registered''), registerAll [0] (newOrchestrator None)) \<and>
   agents (snd (registerAgent testTransport 1 (registerAll [0] (newOrchestrator None)) testWorld))
     ''agent-1'' = Some 0 \<and>
   fst (executeAgent ''agent-1'' (Str ''x'') None
          (snd (registerAgent testTransport 1 (registerAll [0] (newOrchestrator None)) testWorld))
          testWorld) =
     Inr \<lparr>success = True, data = Some (Obj [(''processed'', Str ''x'')]), error = None,
          metrics = Some \<lparr>executionTime = 1, memoryUsed = Some 0, messagesProcessed = None,
                          retryCount = Some 0\<rparr>\<rparr>"
proof -
  have id1: "getId (fst (objs testWorld 1)) = ''agent-1''" by code_simp
  have reg: "agents (registerAll [0] (newOrchestrator None)) (getId (fst (objs testWorld 1))) = Some 0"
    by code_simp
  have run: "fst (executeAgent ''agent-1'' (Str ''x'') None (registerAll [0] (newOrchestrator None))
                    testWorld) =
     Inr \<lparr>success = True, data = Some (Obj [(''processed'', Str ''x'')]), error = None,
          metrics = Some \<lparr>executionTime = 1, memoryUsed = Some 0, messagesProcessed = None,
                          retryCount = Some 0\<rparr>\<rparr>"
    by code_simp
  note th = registerAgent_duplicate [OF reg, where tr = testTransport and input = "Str ''x''"
      and partial = None and w' = testWorld, unfolded id1]
  from th have a: "registerAgent testTransport 1 (registerAll [0] (newOrchestrator None)) testWorld =
     (Some (JsError ''Agent agent-1 is already registered''), registerAll [0] (newOrchestrator None))"
    by (simp only: append.simps)
  from th have b: "agents (snd (registerAgent testTransport 1 (registerAll [0] (newOrchestrator None))
                                 testWorld)) ''agent-1'' = Some 0"
    by (rule conjunct1 [OF conjunct2])
  from th have "executeAgent ''agent-1'' (Str ''x'') None
          (snd (registerAgent testTransport 1 (registerAll [0] (newOrchestrator None)) testWorld))
          testWorld =
        executeAgent ''agent-1'' (Str ''x'') None (registerAll [0] (newOrchestrator None)) testWorld"
    by (rule conjunct2 [OF conjunct2])
  with run have c: "fst (executeAgent ''agent-1'' (Str ''x'') None
          (snd (registerAgent testTransport 1 (registerAll [0] (newOrchestrator None)) testWorld))
          testWorld) =
     Inr \<lparr>success = True, data = Some (Obj [(''processed'', Str ''x'')]), error = None,
          metrics = Some \<lparr>executionTime = 1, memoryUsed = Some 0, messagesProcessed = None,
                          retryCount = Some 0\<rparr>\<rparr>"
    by (simp only:)
  from a b c show ?thesis by (intro conjI)
qed

text \<open>
  C6 as stated has the failure returned, with the code \<open>ALREADY_REGISTERED\<close>.  The code
  throws (as its own test expects), and has no such code.
\<close>

theorem registerAgent_duplicate_throws:
  "fst (registerAgent testTransport 1 (registerAll [0] (newOrchestrator None)) testWorld) =
     Some (JsError ''Agent agent-1 is already registered'') \<and>
   fst (registerAgent testTransport 1 (registerAll [0] (newOrchestrator None)) testWorld) \<noteq> None"
  by code_simp

subsection \<open>Admission\<close>

lemma admit_config:
  "admit aid orch = Inr (ref, orch1) \<Longrightarrow>
   orch1 = orch\<lparr>runningAgents := Set_add aid (runningAgents orch)\<rparr> \<and> agents orch aid = Some ref"
  by (auto simp add: admit_def split: option.splits if_splits)

text \<open>
  C9.  When \<open>maxConcurrentAgents\<close> is 0 the check of the limit is skipped: every
  registered agent is admitted whatever \<open>runningAgents\<close> holds, no result of
  \<open>executeAgent\<close> has the code \<open>MAX_CONCURRENT_LIMIT\<close>, and any number of agents can be
  admitted one after the other while none has finished, each of them joining
  \<open>runningAgents\<close>.
\<close>

theorem zero_limit_admits_all:
  assumes zero: "maxConcurrentAgents (orch_config orch) = Some 0"
  shows "(\<forall>aid ref. agents orch aid = Some ref \<longrightarrow>
            admit aid orch = Inr (ref, orch\<lparr>runningAgents := Set_add aid (runningAgents orch)\<rparr>)) \<and>
         (\<forall>aid input partial w.
            returnedCode (fst (executeAgent aid input partial orch w)) \<noteq>
              Some ''MAX_CONCURRENT_LIMIT'') \<and>
         (\<forall>aids. (\<forall>a\<in>set aids. agents orch a \<noteq> None) \<and> distinct aids \<and>
                 set aids \<inter> set (runningAgents orch) = {} \<longrightarrow>
            (\<exists>orch'. admitAll aids orch = Inr orch' \<and>
                     runningAgents orch' = runningAgents orch @ aids \<and>
                     getRunningAgentCount orch' = getRunningAgentCount orch + length aids))"
proof (intro conjI allI impI)
  fix aid ref
  assume "agents orch aid = Some ref"
  with zero show "admit aid orch = Inr (ref, orch\<lparr>runningAgents := Set_add aid (runningAgents orch)\<rparr>)"
    by (simp add: admit_def)
next
  fix aid input and partial :: "'a PartialAgentContext option" and w :: "('a, 'c) World"
  show "returnedCode (fst (executeAgent aid input partial orch w)) \<noteq>
          Some ''MAX_CONCURRENT_LIMIT''"
  proof (cases "admit aid orch")
    case (Inl rejected)
    with zero have "rejected = failure ''AGENT_NOT_FOUND'' (''Agent '' @ aid @ '' not found'')"
      by (auto simp add: admit_def split: option.splits)
    with Inl show ?thesis by (simp add: executeAgent_def failure_code)
  next
    case (Inr p)
    obtain ref orch1 where p: "p = (ref, orch1)" by (cases p)
    obtain agentContext w1 where b: "buildAgentContext aid partial w = (agentContext, w1)"
      by (cases "buildAgentContext aid partial w") auto
    define fc where "fc =
        \<lparr>enabled = (case fallbackEnabled (orch_config orch1) of None \<Rightarrow> False | Some b \<Rightarrow> b),
         fallbackAgentId = fallbackAgent (getConfig (fst (objs w1 ref))),
         maxFallbackAttempts = Some 2,
         fallbackStrategy = Some CircuitBreakerStrategy\<rparr>"
    from Inr p b have eq: "fst (executeAgent aid input partial orch w) =
        fst (executeWithFallback (fallbackManager orch1) aid agentContext input fc w1)"
      by (simp add: executeAgent_def Let_def fc_def split: prod.splits)
    from executeWithFallback_code [of "fallbackManager orch1" aid agentContext input fc w1]
    show ?thesis unfolding eq by auto
  qed
next
  fix aids
  assume "(\<forall>a\<in>set aids. agents orch a \<noteq> None) \<and> distinct aids \<and>
          set aids \<inter> set (runningAgents orch) = {}"
  then have "\<exists>orch'. admitAll aids orch = Inr orch' \<and>
                     runningAgents orch' = runningAgents orch @ aids \<and>
                     orch_config orch' = orch_config orch \<and> agents orch' = agents orch"
    using zero
  proof (induction aids arbitrary: orch)
    case Nil
    then show ?case by simp
  next
    case (Cons a aids)
    from Cons.prems obtain ref where r: "agents orch a = Some ref" by auto
    let ?o1 = "orch\<lparr>runningAgents := Set_add a (runningAgents orch)\<rparr>"
    from r Cons.prems(2) have ad: "admit a orch = Inr (ref, ?o1)" by (simp add: admit_def)
    from Cons.prems(1) have ra: "runningAgents ?o1 = runningAgents orch @ [a]"
      by (simp add: Set_add_def)
    have "\<exists>orch'. admitAll aids ?o1 = Inr orch' \<and>
                     runningAgents orch' = runningAgents ?o1 @ aids \<and>
                     orch_config orch' = orch_config ?o1 \<and> agents orch' = agents ?o1"
    proof (rule Cons.IH)
      show "(\<forall>a\<in>set aids. agents ?o1 a \<noteq> None) \<and> distinct aids \<and>
            set aids \<inter> set (runningAgents ?o1) = {}"
        using Cons.prems(1) ra by auto
      show "maxConcurrentAgents (orch_config ?o1) = Some 0" using Cons.prems(2) by simp
    qed
    with ad ra show ?case by auto
  qed
  then show "\<exists>orch'. admitAll aids orch = Inr orch' \<and>
                     runningAgents orch' = runningAgents orch @ aids \<and>
                     getRunningAgentCount orch' = getRunningAgentCount orch + length aids"
    by (auto simp add: getRunningAgentCount_def)
qed

theorem zero_limit_admits_all_witness:
  "maxConcurrentAgents (orch_config (registerAll [0, 2, 3] (newOrchestrator (Some 0)))) = Some 0 \<and>
   (\<exists>orch'. admitAll [''agent-1'', ''p'', ''f''] (registerAll [0, 2, 3] (newOrchestrator (Some 0))) =
              Inr orch' \<and>
            runningAgents orch' = [''agent-1'', ''p'', ''f''] \<and>
            getRunningAgentCount orch' = 3)"
proof -
  let ?o = "registerAll [0, 2, 3] (newOrchestrator (Some 0))"
  have z: "maxConcurrentAgents (orch_config ?o) = Some 0" by code_simp
  have r0: "runningAgents ?o = []" by code_simp
  have c0: "getRunningAgentCount ?o = 0" by code_simp
  have len: "length [''agent-1'', ''p'', ''f''] = 3" by simp
  have a: "agents ?o ''agent-1'' \<noteq> None" "agents ?o ''p'' \<noteq> None" "agents ?o ''f'' \<noteq> None"
    by code_simp+
  have pre: "(\<forall>a\<in>set [''agent-1'', ''p'', ''f'']. agents ?o a \<noteq> None) \<and>
             distinct [''agent-1'', ''p'', ''f''] \<and>
             set [''agent-1'', ''p'', ''f''] \<inter> set (runningAgents ?o) = {}"
    using a r0 by simp
  from zero_limit_admits_all [OF z] have
    "\<forall>aids. (\<forall>a\<in>set aids. agents ?o a \<noteq> None) \<and> distinct aids \<and>
                 set aids \<inter> set (runningAgents ?o) = {} \<longrightarrow>
            (\<exists>orch'. admitAll aids ?o = Inr orch' \<and>
                     runningAgents orch' = runningAgents ?o @ aids \<and>
                     getRunningAgentCount orch' = getRunningAgentCount ?o + length aids)"
    by (rule conjunct2 [OF conjunct2])
  with pre have "\<exists>orch'. admitAll [''agent-1'', ''p'', ''f''] ?o = Inr orch' \<and>
                     runningAgents orch' = runningAgents ?o @ [''agent-1'', ''p'', ''f''] \<and>
                     getRunningAgentCount orch' =
                       getRunningAgentCount ?o + length [''agent-1'', ''p'', ''f'']"
    by blast
  then have "\<exists>orch'. admitAll [''agent-1'', ''p'', ''f''] ?o = Inr orch' \<and>
            runningAgents orch' = [''agent-1'', ''p'', ''f''] \<and>
            getRunningAgentCount orch' = 3"
    unfolding r0 c0 len append_Nil by (simp only: add_0_left)
  with z show ?thesis by (rule conjI)
qed
subsection \<open>Unregistration\<close>

text \<open>
  The fallback loop leaves a context that an agent holds in place, and an agent that it
  ran at least once holds the context of the run, whether the loop returns or throws.
\<close>

lemma executeFallbackLoop_kept:
  "agent_context (fst (objs w r)) = Some ctx \<Longrightarrow>
   agent_context (fst (objs (snd (executeFallbackLoop ref ctx input n a w)) r)) = Some ctx"
proof (induction ref ctx input n a w rule: executeFallbackLoop.induct)
  case (1 ref ctx input n a w)
  show ?case
  proof (cases "a < n")
    case False
    with "1.prems" show ?thesis by (subst executeFallbackLoop.simps) simp
  next
    case True
    obtain out w1 where e: "agentExecute ref ctx input w = (out, w1)"
      by (cases "agentExecute ref ctx input w") auto
    from agentExecute_context_kept [OF "1.prems", of ref input] e
    have k: "agent_context (fst (objs w1 r)) = Some ctx" by simp
    show ?thesis
    proof (cases out)
      case (Inl thrown)
      with True e k show ?thesis by (subst executeFallbackLoop.simps) simp
    next
      case (Inr res)
      show ?thesis
      proof (cases "success res")
        case s: True
        with True e Inr k show ?thesis by (subst executeFallbackLoop.simps) simp
      next
        case f: False
        from "1.IH" [OF True e [symmetric] Inr f k] True e Inr f
        show ?thesis by (subst executeFallbackLoop.simps) simp
      qed
    qed
  qed
qed

lemma executeFallbackLoop_ran:
  assumes "a < n"
  shows "agent_context (fst (objs (snd (executeFallbackLoop ref ctx input n a w)) ref)) = Some ctx"
proof -
  obtain out w1 where e: "agentExecute ref ctx input w = (out, w1)"
    by (cases "agentExecute ref ctx input w") auto
  from agentExecute_context [of ref ctx input w] e
  have k: "agent_context (fst (objs w1 ref)) = Some ctx" by simp
  show ?thesis
  proof (cases out)
    case (Inl thrown)
    with assms e k show ?thesis by (subst executeFallbackLoop.simps) simp
  next
    case (Inr res)
    show ?thesis
    proof (cases "success res")
      case True
      with assms e Inr k show ?thesis by (subst executeFallbackLoop.simps) simp
    next
      case False
      from executeFallbackLoop_kept [OF k, of ref input n "a + 1"] assms e Inr False
      show ?thesis by (subst executeFallbackLoop.simps) simp
    qed
  qed
qed

text \<open>
  C10.  \<open>unregisterAgent\<close> takes the id out of the orchestrator's map, the bus
  subscription and the running set, and leaves the fallback manager as it was: the
  breaker state that \<open>getCircuitState\<close> reports is unchanged, \<open>executeWithFallback\<close> for
  the id does what it did before, and as a fallback target the agent is still found and
  run.
\<close>

theorem unregisterAgent_frame:
  "fallbackManager (unregisterAgent tr aid orch) = fallbackManager orch \<and>
   getCircuitState (unregisterAgent tr aid orch) aid = getCircuitState orch aid \<and>
   agents (unregisterAgent tr aid orch) aid = None \<and>
   messageHandlers (communicationBus (unregisterAgent tr aid orch)) aid = None \<and>
   aid \<notin> set (runningAgents (unregisterAgent tr aid orch)) \<and>
   executeWithFallback (fallbackManager (unregisterAgent tr aid orch)) aid ctx input fc w =
     executeWithFallback (fallbackManager orch) aid ctx input fc w \<and>
   (\<forall>ref. fm_agents (fallbackManager orch) aid = Some ref \<longrightarrow>
      executeFallback (fallbackManager (unregisterAgent tr aid orch)) aid ctx input n w =
        executeFallbackLoop ref ctx input n 0 w \<and>
      (0 < n \<longrightarrow>
         agent_context (fst (objs (snd (executeFallback (fallbackManager (unregisterAgent tr aid orch))
                                          aid ctx input n w)) ref)) = Some ctx))"
  by (simp add: unregisterAgent_def getCircuitState_def unsubscribe_def Set_delete_def
      executeFallback_def executeFallbackLoop_ran)

theorem unregisterAgent_frame_witness:
  "getCircuitState (unregisterAgent testTransport ''f'' (registerAll [2, 3] (newOrchestrator None))) ''f'' =
     Some CLOSED \<and>
   agents (unregisterAgent testTransport ''f'' (registerAll [2, 3] (newOrchestrator None))) ''f'' = None \<and>
   agent_context
     (fst (objs (snd (executeFallback
                        (fallbackManager (unregisterAgent testTransport ''f''
                                            (registerAll [2, 3] (newOrchestrator None))))
                        ''f'' testContext (Str ''x'') 2 testWorld)) 3)) = Some testContext \<and>
   fst (executeAgent ''p'' (Str ''x'') None
          (unregisterAgent testTransport ''f'' (registerAll [2, 3] (newOrchestrator None))) testWorld) =
     Inr \<lparr>success = True, data = Some (Obj [(''processed'', Str ''x'')]), error = None,
          metrics = Some \<lparr>executionTime = 1, memoryUsed = Some 0, messagesProcessed = None,
                          retryCount = Some 0\<rparr>\<rparr>"
proof -
  let ?o = "registerAll [2, 3] (newOrchestrator None)"
  note th = unregisterAgent_frame [where tr = testTransport and aid = "''f''" and orch = ?o
      and ctx = testContext and input = "Str ''x''" and n = 2 and w = testWorld]
  have cs: "getCircuitState ?o ''f'' = Some CLOSED" by code_simp
  have fm: "fm_agents (fallbackManager ?o) ''f'' = Some 3" by code_simp
  from th have "getCircuitState (unregisterAgent testTransport ''f'' ?o) ''f'' = getCircuitState ?o ''f''"
    by (rule conjunct1 [OF conjunct2])
  with cs have a: "getCircuitState (unregisterAgent testTransport ''f'' ?o) ''f'' = Some CLOSED"
    by (simp only:)
  from th have b: "agents (unregisterAgent testTransport ''f'' ?o) ''f'' = None"
    by (rule conjunct1 [OF conjunct2 [OF conjunct2]])
  from th have "\<forall>ref. fm_agents (fallbackManager ?o) ''f'' = Some ref \<longrightarrow>
      executeFallback (fallbackManager (unregisterAgent testTransport ''f'' ?o)) ''f'' testContext
        (Str ''x'') 2 testWorld = executeFallbackLoop ref testContext (Str ''x'') 2 0 testWorld \<and>
      ((0::int) < 2 \<longrightarrow>
         agent_context (fst (objs (snd (executeFallback
              (fallbackManager (unregisterAgent testTransport ''f'' ?o)) ''f'' testContext
              (Str ''x'') 2 testWorld)) ref)) = Some testContext)"
    by (rule conjunct2 [OF conjunct2 [OF conjunct2 [OF conjunct2 [OF conjunct2 [OF conjunct2]]]]])
  moreover have "(0::int) < 2" by simp
  ultimately have c: "agent_context (fst (objs (snd (executeFallback
              (fallbackManager (unregisterAgent testTransport ''f'' ?o)) ''f'' testContext
              (Str ''x'') 2 testWorld)) 3)) = Some testContext"
    using fm by blast
  have d: "fst (executeAgent ''p'' (Str ''x'') None (unregisterAgent testTransport ''f'' ?o) testWorld) =
     Inr \<lparr>success = True, data = Some (Obj [(''processed'', Str ''x'')]), error = None,
          metrics = Some \<lparr>executionTime = 1, memoryUsed = Some 0, messagesProcessed = None,
                          retryCount = Some 0\<rparr>\<rparr>"
    by code_simp
  from a b c d show ?thesis by (intro conjI)
qed
subsection \<open>The context of an execution\<close>

text \<open>
  A property that every call establishes and every sleep keeps holds after the retry
  loop, if it held before or the loop made at least one attempt.
\<close>

lemma retryLoop_establishes:
  "(\<And>s. P (snd (call s))) \<Longrightarrow> (\<And>ms s. P s \<Longrightarrow> P (sl ms s)) \<Longrightarrow> P s \<or> a < n \<Longrightarrow>
   P (snd (retryLoop call sl n m cap a d le s))"
proof (induction call sl n m cap a d le s rule: retryLoop.induct)
  case (1 call sl n m cap a d le s)
  show ?case
  proof (cases "a < n")
    case False
    with "1.prems"(3) show ?thesis by (simp add: retryLoop_exhausted)
  next
    case True
    obtain out s1 where c: "call s = (out, s1)" by (cases "call s") auto
    have p1: "P s1" using "1.prems"(1) [of s] unfolding c by simp
    have p2: "P (sl (Math_min d cap) s1)" using p1 by (rule "1.prems"(2))
    show ?thesis
    proof (cases out)
      case (Inr res)
      show ?thesis
      proof (cases "success res")
        case True
        with c Inr \<open>a < n\<close> p1 show ?thesis by (simp add: retryLoop_success)
      next
        case False
        show ?thesis
        proof (cases "a < n - 1")
          case True
          from "1.IH"(3) [OF \<open>a < n\<close> c [symmetric] Inr False True "1.prems"(1,2)] p2
          have "P (snd (retryLoop call sl n m cap (a + 1) (jsTimes d m) (Some (resultError res))
                          (sl (Math_min d cap) s1)))"
            by simp
          with c Inr False True \<open>a < n\<close> show ?thesis
            by (subst retryLoop.simps) simp
        next
          case F2: False
          from "1.IH"(4) [OF \<open>a < n\<close> c [symmetric] Inr False F2 "1.prems"(1,2)] p1
          have "P (snd (retryLoop call sl n m cap (a + 1) d (Some (resultError res)) s1))"
            by simp
          with c Inr False F2 \<open>a < n\<close> show ?thesis
            by (subst retryLoop.simps) simp
        qed
      qed
    next
      case (Inl e)
      show ?thesis
      proof (cases "a < n - 1")
        case True
        from "1.IH"(1) [OF \<open>a < n\<close> c [symmetric] Inl True "1.prems"(1,2)] p2
        have "P (snd (retryLoop call sl n m cap (a + 1) (jsTimes d m) (Some (caughtError e))
                        (sl (Math_min d cap) s1)))"
          by simp
        with c Inl True \<open>a < n\<close> show ?thesis
          by (subst retryLoop.simps) simp
      next
        case F2: False
        from "1.IH"(2) [OF \<open>a < n\<close> c [symmetric] Inl F2 "1.prems"(1,2)] p1
        have "P (snd (retryLoop call sl n m cap (a + 1) d (Some (caughtError e)) s1))"
          by simp
        with c Inl F2 \<open>a < n\<close> show ?thesis
          by (subst retryLoop.simps) simp
      qed
    qed
  qed
qed

lemma sleep_objs: "objs (sleep ms w) = objs w"
  by (simp add: sleep_def)

lemma agentExecuteWithRetry_context:
  fixes w :: "('v, 'u) World"
  assumes "0 < orDefault (map_option maxAttempts policy) 1"
  shows "agent_context (fst (objs (snd (agentExecuteWithRetry ref ctx input policy w)) ref)) = Some ctx"
proof -
  define call where
    "call = (agentExecute ref ctx input ::
               ('v, 'u) World \<Rightarrow> (Thrown + 'v AgentResult) \<times> ('v, 'u) World)"
  define P where "P = (\<lambda>w0 :: ('v, 'u) World. agent_context (fst (objs w0 ref)) = Some ctx)"
  have est: "\<And>s. P (snd (call s))"
    by (simp add: call_def P_def agentExecute_context)
  have slp: "\<And>ms s. P s \<Longrightarrow> P (sleep ms s)" by (simp add: P_def sleep_objs)
  have "P (snd (retryLoop call sleep (orDefault (map_option maxAttempts policy) 1)
                  (numberOrDefault (Option.bind policy backoffMultiplier) (num 2))
                  (numberOrDefault (Option.bind policy maxDelay) (num 30000)) 0
                  (numberOrDefault (Option.bind policy initialDelay) (num 1000)) None w))"
  proof (rule retryLoop_establishes [where P = P])
    show "\<And>s. P (snd (call s))" by (rule est)
    show "\<And>ms s. P s \<Longrightarrow> P (sleep ms s)" by (rule slp)
    show "P w \<or> 0 < orDefault (map_option maxAttempts policy) 1" using assms by simp
  qed
  then show ?thesis
    by (simp add: agentExecuteWithRetry_def executeWithRetry_def Let_def call_def P_def)
qed

lemma CircuitBreaker_execute_passes:
  "state cb \<noteq> OPEN \<or> shouldAttemptReset (clk s) cb \<Longrightarrow>
   snd (snd (CircuitBreaker_execute clk fn cb s)) = snd (fn s)"
  by (auto simp add: CircuitBreaker_execute_def Let_def split: prod.splits sum.splits)

lemma executeFallback_kept:
  "agent_context (fst (objs w r)) = Some ctx \<Longrightarrow>
   agent_context (fst (objs (snd (executeFallback fm fb ctx input n w)) r)) = Some ctx"
  by (simp add: executeFallback_def executeFallbackLoop_kept split: option.splits)

lemma executeWithFallback_context:
  fixes w :: "('v, 'u) World"
  assumes fm: "fm_agents fm aid = Some ref"
      and gate: "\<forall>cb. circuitBreakers fm aid = Some cb \<longrightarrow>
                   state cb \<noteq> OPEN \<or> shouldAttemptReset (clock w) cb"
      and att: "0 < orDefault (map_option maxAttempts (retryPolicy (config (fst (objs w ref))))) 1"
  shows "agent_context (fst (objs (snd (snd (executeWithFallback fm aid ctx input fc w))) ref)) =
           Some ctx"
proof -
  define policy where "policy = retryPolicy (getConfig (fst (objs w ref)))"
  define guarded where "guarded =
     (case circuitBreakers fm aid of
        Some cb \<Rightarrow>
          (case CircuitBreaker_execute clock (agentExecuteWithRetry ref ctx input policy) cb w of
             (out, cb', w1) \<Rightarrow> (out, fm\<lparr>circuitBreakers := (circuitBreakers fm)(aid \<mapsto> cb')\<rparr>, w1))
      | None \<Rightarrow>
          (case agentExecuteWithRetry ref ctx input policy w of (out, w1) \<Rightarrow> (out, fm, w1)))"
  obtain out fm1 w1 where g: "guarded = (out, fm1, w1)" by (cases guarded) auto
  note unf = executeWithFallback_unfold [OF fm, of ctx input fc w,
      folded policy_def, folded guarded_def]
  have pol: "0 < orDefault (map_option maxAttempts policy) 1"
    using att by (simp add: policy_def getConfig_def)
  have w1: "w1 = snd (agentExecuteWithRetry ref ctx input policy w)"
  proof (cases "circuitBreakers fm aid")
    case None
    with g show ?thesis by (auto simp add: guarded_def split: prod.splits)
  next
    case (Some cb)
    with gate have "state cb \<noteq> OPEN \<or> shouldAttemptReset (clock w) cb" by simp
    from CircuitBreaker_execute_passes [where clk = clock and s = w and cb = cb
        and fn = "agentExecuteWithRetry ref ctx input policy", OF this] g Some
    show ?thesis by (auto simp add: guarded_def split: prod.splits)
  qed
  have k1: "agent_context (fst (objs w1 ref)) = Some ctx"
    unfolding w1 using pol by (rule agentExecuteWithRetry_context)
  show ?thesis
  proof (cases out)
    case (Inr result)
    with unf g k1 show ?thesis by simp
  next
    case (Inl e)
    show ?thesis
    proof (cases "fallbackAgentId fc")
      case None
      with unf g Inl k1 show ?thesis by simp
    next
      case (Some fb)
      show ?thesis
      proof (cases "enabled fc \<and> fb \<noteq> []")
        case True
        with unf g Inl Some
        have "snd (snd (executeWithFallback fm aid ctx input fc w)) =
              snd (executeFallback fm1 fb ctx input (orDefault (maxFallbackAttempts fc) 1) w1)"
          by (simp split: prod.splits)
        with executeFallback_kept [OF k1] show ?thesis by simp
      next
        case False
        with unf g Inl Some k1 show ?thesis by auto
      qed
    qed
  qed
qed

text \<open>
  C3, as the code has it.  When the agent is admitted, the breaker lets the call through
  and the retry loop makes at least one attempt, the context that the agent is executed
  with takes every field that the caller's partial context has from the caller:
  \<open>agentId\<close>, \<open>requestId\<close> and \<open>timestamp\<close> as well as \<open>correlationId\<close> and \<open>metadata\<close>.
  A field that the caller leaves out is the target agent id, the generated request id,
  the current time, or absent.
\<close>

theorem executeAgent_context:
  fixes w :: "('v, 'u) World"
  assumes adm: "admit aid orch = Inr (ref, orch1)"
      and fm: "fm_agents (fallbackManager orch) aid = Some ref"
      and gate: "\<forall>cb. circuitBreakers (fallbackManager orch) aid = Some cb \<longrightarrow>
                   state cb \<noteq> OPEN \<or> shouldAttemptReset (clock w) cb"
      and att: "0 < orDefault (map_option maxAttempts (retryPolicy (config (fst (objs w ref))))) 1"
  shows "agent_context (fst (objs (snd (snd (executeAgent aid input partial orch w))) ref)) =
           Some \<lparr>agentId = (case Option.bind partial part_agentId of None \<Rightarrow> aid | Some a \<Rightarrow> a),
                 requestId = (case Option.bind partial part_requestId of
                                None \<Rightarrow> fst (generateRequestId w) | Some r \<Rightarrow> r),
                 correlationId = Option.bind partial part_correlationId,
                 timestamp = (case Option.bind partial part_timestamp of
                                None \<Rightarrow> clock w | Some t \<Rightarrow> t),
                 metadata = Option.bind partial part_metadata\<rparr>"
proof -
  obtain agentContext w1 where b: "buildAgentContext aid partial w = (agentContext, w1)"
    by (cases "buildAgentContext aid partial w") auto
  then have w1: "w1 = w\<lparr>randomsUsed := randomsUsed w + 1\<rparr>"
    and ac: "agentContext =
           \<lparr>agentId = (case Option.bind partial part_agentId of None \<Rightarrow> aid | Some a \<Rightarrow> a),
                 requestId = (case Option.bind partial part_requestId of
                                None \<Rightarrow> fst (generateRequestId w) | Some r \<Rightarrow> r),
                 correlationId = Option.bind partial part_correlationId,
                 timestamp = (case Option.bind partial part_timestamp of
                                None \<Rightarrow> clock w | Some t \<Rightarrow> t),
                 metadata = Option.bind partial part_metadata\<rparr>"
    unfolding buildAgentContext_def generateRequestId_def by (auto split: option.splits)
  from admit_config [OF adm] have o1: "fallbackManager orch1 = fallbackManager orch" by simp
  define fc where "fc =
        \<lparr>enabled = (case fallbackEnabled (orch_config orch1) of None \<Rightarrow> False | Some b \<Rightarrow> b),
         fallbackAgentId = fallbackAgent (getConfig (fst (objs w1 ref))),
         maxFallbackAttempts = Some 2,
         fallbackStrategy = Some CircuitBreakerStrategy\<rparr>"
  from adm b have eq: "snd (snd (executeAgent aid input partial orch w)) =
        snd (snd (executeWithFallback (fallbackManager orch1) aid agentContext input fc w1))"
    by (simp add: executeAgent_def Let_def fc_def split: prod.splits)
  have "agent_context (fst (objs (snd (snd (executeWithFallback (fallbackManager orch1) aid
                                             agentContext input fc w1))) ref)) = Some agentContext"
  proof (rule executeWithFallback_context)
    show "fm_agents (fallbackManager orch1) aid = Some ref" using fm o1 by simp
    show "\<forall>cb. circuitBreakers (fallbackManager orch1) aid = Some cb \<longrightarrow>
                   state cb \<noteq> OPEN \<or> shouldAttemptReset (clock w1) cb"
      using gate o1 w1 by simp
    show "0 < orDefault (map_option maxAttempts (retryPolicy (config (fst (objs w1 ref))))) 1"
      using att w1 by simp
  qed
  with eq ac show ?thesis by simp
qed

theorem executeAgent_context_witness:
  "agent_context
     (fst (objs (snd (snd (executeAgent ''agent-1'' (Str ''x'') (Some callerContext)
                             (registerAll [0] (newOrchestrator None)) testWorld))) 0)) =
   Some \<lparr>agentId = ''agent-1'', requestId = ''req-1000-r0'', correlationId = Some ''corr-123'',
         timestamp = 1000, metadata = Some (Str ''m'')\<rparr>"
proof -
  let ?o = "registerAll [0] (newOrchestrator None)"
  have ag: "agents ?o ''agent-1'' = Some 0" by code_simp
  have lim: "maxConcurrentAgents (orch_config ?o) = Some 10" by code_simp
  have run: "runningAgents ?o = []" by code_simp
  have adm: "admit ''agent-1'' ?o = Inr (0, ?o\<lparr>runningAgents := Set_add ''agent-1'' (runningAgents ?o)\<rparr>)"
    unfolding admit_def ag lim run by simp
  have fm: "fm_agents (fallbackManager ?o) ''agent-1'' = Some 0" by code_simp
  have "map_option state (circuitBreakers (fallbackManager ?o) ''agent-1'') = Some CLOSED"
    by code_simp
  then have gate: "\<forall>cb. circuitBreakers (fallbackManager ?o) ''agent-1'' = Some cb \<longrightarrow>
                   state cb \<noteq> OPEN \<or> shouldAttemptReset (clock testWorld) cb"
    by auto
  have "retryPolicy (config (fst (objs testWorld 0))) = None" by code_simp
  then have att: "0 < orDefault (map_option maxAttempts (retryPolicy (config (fst (objs testWorld 0))))) 1"
    by (simp add: orDefault_def)
  have rhs: "\<lparr>agentId = (case Option.bind (Some callerContext) part_agentId of
                          None \<Rightarrow> ''agent-1'' | Some a \<Rightarrow> a),
              requestId = (case Option.bind (Some callerContext) part_requestId of
                             None \<Rightarrow> fst (generateRequestId testWorld) | Some r \<Rightarrow> r),
              correlationId = Option.bind (Some callerContext) part_correlationId,
              timestamp = (case Option.bind (Some callerContext) part_timestamp of
                             None \<Rightarrow> clock testWorld | Some t \<Rightarrow> t),
              metadata = Option.bind (Some callerContext) part_metadata\<rparr> =
             \<lparr>agentId = ''agent-1'', requestId = ''req-1000-r0'', correlationId = Some ''corr-123'',
              timestamp = 1000, metadata = Some (Str ''m'')\<rparr>"
    by code_simp
  from executeAgent_context [OF adm fm gate att, where input = "Str ''x''"
      and partial = "Some callerContext"]
  show ?thesis unfolding rhs .
qed

text \<open>
  C3 as stated makes \<open>agentId\<close> and \<open>requestId\<close> authoritative.  With a partial context
  that gives both, the agent \<open>agent-1\<close> is executed under the agent id \<open>intruder\<close> and the
  request id \<open>forged\<close>, not under its own id and the generated \<open>req-1000-r0\<close>.
\<close>

theorem executeAgent_caller_overrides_ids:
  "agent_context
     (fst (objs (snd (snd (executeAgent ''agent-1'' (Str ''x'') (Some forgedContext)
                             (registerAll [0] (newOrchestrator None)) testWorld))) 0)) =
     Some \<lparr>agentId = ''intruder'', requestId = ''forged'', correlationId = None, timestamp = 7,
           metadata = None\<rparr> \<and>
   map_option agentId
     (agent_context
        (fst (objs (snd (snd (executeAgent ''agent-1'' (Str ''x'') (Some forgedContext)
                                (registerAll [0] (newOrchestrator None)) testWorld))) 0))) \<noteq>
     Some ''agent-1'' \<and>
   map_option requestId
     (agent_context
        (fst (objs (snd (snd (executeAgent ''agent-1'' (Str ''x'') (Some forgedContext)
                                (registerAll [0] (newOrchestrator None)) testWorld))) 0))) \<noteq>
     Some (fst (generateRequestId testWorld))"
  by code_simp

end
